theory Spec2Isabelle
  imports Complex_Main "HOL-Library.Word" "HOL-Library.List_Lexorder" "HOL-Library.Char_ord"
begin

section \<open>The mutable N-gram trie of ngram\_trie.c\<close>

text \<open>
  The development embeds \<^verbatim>\<open>ngram_trie.c\<close>: the trie of nodes with sorted successor
  arrays, the path lookup, the Katz backoff queries, the iterator and the ARPA loader.
  The services the file consumes and whose code is elsewhere (the C library's string
  functions, the dictionary, the generic array \<^verbatim>\<open>garray_t\<close>, the line iterator) are
  modelled from their interface; each such definition says so.
\<close>

subsection \<open>Strings\<close>

text \<open>
  \<^verbatim>\<open>strcmp\<close> of the C library: negative, zero or positive as the first string is
  before, equal to or after the second in the lexicographic order of their bytes.
\<close>

definition strcmp :: "string \<Rightarrow> string \<Rightarrow> int" where
  "strcmp a b = (if a < b then - 1 else if a = b then 0 else 1)"

subsection \<open>The dictionary service\<close>

text \<open>
  Modelled from the spec: the dictionary (\<^verbatim>\<open>dict_t\<close>, not part of this file) maps
  word strings to dense integer ids and back and supports adding a word. The model is the
  list of the word strings, the id of a word being its index. An id the dictionary does
  not hold (\<^verbatim>\<open>BAD_S3WID\<close> among them) has no string, and what the service hands to
  \<^verbatim>\<open>strcmp\<close> for it is not in this file; the model answers the empty string there.
  The evaluations below use ids the dictionary holds, and the general lemmas hold
  whatever that answer is.
\<close>

type_synonym dict_t = "string list"

definition BAD_S3WID :: int where
  "BAD_S3WID = - 1"

fun dict_lookup :: "string list \<Rightarrow> string \<Rightarrow> nat \<Rightarrow> int" where
  "dict_lookup [] s i = BAD_S3WID"
| "dict_lookup (x # xs) s i = (if x = s then int i else dict_lookup xs s (Suc i))"

definition dict_wordid :: "dict_t \<Rightarrow> string \<Rightarrow> int" where
  "dict_wordid d s = dict_lookup d s 0"

definition dict_add_word :: "dict_t \<Rightarrow> string \<Rightarrow> dict_t \<times> int" where
  "dict_add_word d s = (d @ [s], int (length d))"

definition dict_wordstr :: "dict_t \<Rightarrow> int \<Rightarrow> string" where
  "dict_wordstr d w = (if 0 \<le> w \<and> w < int (length d) then d ! nat w else [])"

subsection \<open>The generic array\<close>

text \<open>
  Modelled from the spec: \<^verbatim>\<open>garray_t\<close> (not part of this file) is a growable array with
  a comparison function; \<^verbatim>\<open>garray_bisect_left\<close> is the binary search for the leftmost
  insertion point of an entry, \<^verbatim>\<open>garray_bisect_right\<close> the one for the rightmost.
  An array is a list, \<^verbatim>\<open>garray_next_idx\<close> its length.
\<close>

function garray_bisect_left_loop ::
  "('a \<Rightarrow> 'a \<Rightarrow> int) \<Rightarrow> 'a list \<Rightarrow> 'a \<Rightarrow> nat \<Rightarrow> nat \<Rightarrow> nat" where
  "garray_bisect_left_loop cmp gar ent lo hi =
     (if lo < hi then
        (let mid = (lo + hi) div 2 in
         if cmp (gar ! mid) ent < 0
         then garray_bisect_left_loop cmp gar ent (mid + 1) hi
         else garray_bisect_left_loop cmp gar ent lo mid)
      else lo)"
  by pat_completeness auto
termination
  by (relation "measure (\<lambda>(cmp, gar, ent, lo, hi). hi - lo)") auto

definition garray_bisect_left :: "('a \<Rightarrow> 'a \<Rightarrow> int) \<Rightarrow> 'a list \<Rightarrow> 'a \<Rightarrow> nat" where
  "garray_bisect_left cmp gar ent = garray_bisect_left_loop cmp gar ent 0 (length gar)"

function garray_bisect_right_loop ::
  "('a \<Rightarrow> 'a \<Rightarrow> int) \<Rightarrow> 'a list \<Rightarrow> 'a \<Rightarrow> nat \<Rightarrow> nat \<Rightarrow> nat" where
  "garray_bisect_right_loop cmp gar ent lo hi =
     (if lo < hi then
        (let mid = (lo + hi) div 2 in
         if cmp ent (gar ! mid) < 0
         then garray_bisect_right_loop cmp gar ent lo mid
         else garray_bisect_right_loop cmp gar ent (mid + 1) hi)
      else lo)"
  by pat_completeness auto
termination
  by (relation "measure (\<lambda>(cmp, gar, ent, lo, hi). hi - lo)") auto

definition garray_bisect_right :: "('a \<Rightarrow> 'a \<Rightarrow> int) \<Rightarrow> 'a list \<Rightarrow> 'a \<Rightarrow> nat" where
  "garray_bisect_right cmp gar ent = garray_bisect_right_loop cmp gar ent 0 (length gar)"

definition garray_append :: "'a list \<Rightarrow> 'a \<Rightarrow> 'a list" where
  "garray_append gar ent = gar @ [ent]"

definition garray_insert :: "'a list \<Rightarrow> nat \<Rightarrow> 'a \<Rightarrow> 'a list" where
  "garray_insert gar pos ent = take pos gar @ ent # drop pos gar"

definition garray_delete :: "'a list \<Rightarrow> nat \<Rightarrow> nat \<Rightarrow> 'a list" where
  "garray_delete gar start end = take start gar @ drop end gar"

subsection \<open>Nodes, node pointers and the trie\<close>

text \<open>
  \<^verbatim>\<open>struct ngram_trie_node_s\<close>. The successor array owns the children, so a node is a
  tree. The source's \<^verbatim>\<open>int16\<close> fields are 16-bit words.

  A node pointer is the path from the root to the node: the positions taken in the
  successor arrays on the way down; the root is the empty path and \<^verbatim>\<open>NULL\<close> is
  \<open>None\<close>. The field \<^verbatim>\<open>history\<close> is the back-reference to the parent
  (\<^verbatim>\<open>ngram_trie_add_successor\<close> sets it to the node whose array receives the new node),
  so it is the path without its last step, and \<^verbatim>\<open>NULL\<close> for the root.
\<close>

datatype ngram_trie_node =
  Node (word: int) (log_prob: "16 word") (log_bowt: "16 word")
       (successors: "ngram_trie_node list")

type_synonym nodeptr = "nat list"

fun node_at :: "ngram_trie_node \<Rightarrow> nodeptr \<Rightarrow> ngram_trie_node" where
  "node_at nd [] = nd"
| "node_at nd (i # p) = node_at (successors nd ! i) p"

fun node_update ::
  "ngram_trie_node \<Rightarrow> nodeptr \<Rightarrow> (ngram_trie_node \<Rightarrow> ngram_trie_node) \<Rightarrow> ngram_trie_node" where
  "node_update nd [] f = f nd"
| "node_update nd (i # p) f =
     Node (word nd) (log_prob nd) (log_bowt nd)
          ((successors nd)[i := node_update (successors nd ! i) p f])"

definition history :: "nodeptr \<Rightarrow> nodeptr option" where
  "history h = (if h = [] then None else Some (butlast h))"

text \<open>
  \<^verbatim>\<open>struct ngram_trie_s\<close>; field \<^verbatim>\<open>f\<close> is \<open>t_f\<close>. The log-math handle is the function
  \<^verbatim>\<open>logmath_log\<close> of the log-math service, from a probability to its fixed-point
  logarithm. The node pool is left out: the tree owns its nodes.
\<close>

record ngram_trie =
  t_refcount :: int
  t_dict :: dict_t
  t_gendict :: bool
  t_lmath :: "real \<Rightarrow> int"
  t_shift :: nat
  t_zero :: int
  t_n :: int
  t_counts :: "int list"
  t_root :: ngram_trie_node

definition deref :: "ngram_trie \<Rightarrow> nodeptr \<Rightarrow> ngram_trie_node" where
  "deref t h = node_at (t_root t) h"

definition ngram_trie_nodeptr_cmp ::
  "ngram_trie \<Rightarrow> ngram_trie_node \<Rightarrow> ngram_trie_node \<Rightarrow> int" where
  "ngram_trie_nodeptr_cmp t na nb =
     strcmp (dict_wordstr (t_dict t) (word na)) (dict_wordstr (t_dict t) (word nb))"

definition ngram_trie_node_alloc :: ngram_trie_node where
  "ngram_trie_node_alloc = Node (- 1) 0 0 []"

definition ngram_trie_root :: "ngram_trie \<Rightarrow> nodeptr" where
  "ngram_trie_root t = []"

subsection \<open>Successor lookup\<close>

text \<open>
  \<^verbatim>\<open>ngram_trie_successor_pos\<close> searches with a node on the stack of which only the
  word is set; the comparison reads nothing else of it.
\<close>

definition ngram_trie_successor_pos :: "ngram_trie \<Rightarrow> nodeptr \<Rightarrow> int \<Rightarrow> nat" where
  "ngram_trie_successor_pos t h w =
     garray_bisect_left (ngram_trie_nodeptr_cmp t) (successors (deref t h)) (Node w 0 0 [])"

definition ngram_trie_successor :: "ngram_trie \<Rightarrow> nodeptr \<Rightarrow> int \<Rightarrow> nodeptr option" where
  "ngram_trie_successor t h w =
     (let pos = ngram_trie_successor_pos t h w in
      if pos \<ge> length (successors (deref t h)) then None
      else Some (h @ [pos]))"

subsection \<open>Path lookup\<close>

text \<open>
  The \<^verbatim>\<open>while (n_hist > 0)\<close> loop of \<^verbatim>\<open>ngram_trie_ngram_v\<close>. Its body reads
  \<^verbatim>\<open>hist[n_hist - 1]\<close>, replaces \<^verbatim>\<open>node\<close> by the successor found and returns
  \<^verbatim>\<open>NULL\<close> when there is none; it does not change \<^verbatim>\<open>n_hist\<close>. Outer \<open>None\<close> is a
  loop that does not return, \<open>Some None\<close> the return of \<^verbatim>\<open>NULL\<close> from inside the loop,
  \<open>Some (Some node)\<close> the node the loop ends with.
\<close>

partial_function (option) ngram_v_loop ::
  "ngram_trie \<Rightarrow> nodeptr \<Rightarrow> int list \<Rightarrow> int \<Rightarrow> nodeptr option option" where
  "ngram_v_loop t node hist n_hist =
     (if n_hist > 0 then
        (let nextwid = hist ! nat (n_hist - 1) in
         case ngram_trie_successor t node nextwid of
           None \<Rightarrow> Some None
         | Some node' \<Rightarrow> ngram_v_loop t node' hist n_hist)
      else Some (Some node))"

declare ngram_v_loop.simps [code]

definition ngram_trie_ngram_v ::
  "ngram_trie \<Rightarrow> int \<Rightarrow> int list \<Rightarrow> int \<Rightarrow> nodeptr option option" where
  "ngram_trie_ngram_v t w hist n_hist =
     (let node = ngram_trie_root t;
          n_hist = (if n_hist > t_n t - 1 then t_n t - 1 else n_hist)
      in case ngram_v_loop t node hist n_hist of
           None \<Rightarrow> None
         | Some None \<Rightarrow> Some None
         | Some (Some node) \<Rightarrow> Some (ngram_trie_successor t node w))"

subsection \<open>Backoff weight and probability\<close>

text \<open>
  The history is the array \<open>hist\<close> with its length \<open>n_hist\<close>, newest word first;
  \<^verbatim>\<open>hist + 1\<close> is the array without its first entry. The results are \<^verbatim>\<open>int32\<close> in the
  source and unbounded integers here. Outer \<open>None\<close> is a lookup that did not return.
\<close>

function ngram_trie_bowt_v :: "ngram_trie \<Rightarrow> int \<Rightarrow> int list \<Rightarrow> int \<Rightarrow> int option" where
  "ngram_trie_bowt_v t w hist n_hist =
     (case ngram_trie_ngram_v t w hist n_hist of
        None \<Rightarrow> None
      | Some (Some ng) \<Rightarrow> Some (push_bit (t_shift t) (sint (log_bowt (deref t ng))))
      | Some None \<Rightarrow>
          if n_hist > 0 then ngram_trie_bowt_v t (hist ! 0) (drop 1 hist) (n_hist - 1)
          else Some 0)"
  by pat_completeness auto
termination
  by (relation "measure (\<lambda>(t, w, hist, n_hist). nat n_hist)") auto

text \<open>
  The out-parameter \<^verbatim>\<open>int *n_used\<close> is \<open>None\<close> for a null pointer and \<open>Some v\<close> for a
  cell holding \<open>v\<close>; the function returns the cell with the probability.
\<close>

function ngram_trie_prob_v ::
  "ngram_trie \<Rightarrow> int option \<Rightarrow> int \<Rightarrow> int list \<Rightarrow> int \<Rightarrow> (int \<times> int option) option" where
  "ngram_trie_prob_v t n_used w hist n_hist =
     (let n_used = map_option (\<lambda>_. n_hist + 1) n_used in
      case ngram_trie_ngram_v t w hist n_hist of
        None \<Rightarrow> None
      | Some (Some ng) \<Rightarrow> Some (push_bit (t_shift t) (sint (log_prob (deref t ng))), n_used)
      | Some None \<Rightarrow>
          if n_hist > 0 then
            (let n_used = map_option (\<lambda>v. v - 1) n_used in
             case ngram_trie_prob_v t n_used w hist (n_hist - 1) of
               None \<Rightarrow> None
             | Some (bong, n_used) \<Rightarrow>
                 (case ngram_trie_bowt_v t (hist ! 0) (drop 1 hist) (n_hist - 1) of
                    None \<Rightarrow> None
                  | Some pong \<Rightarrow> Some (bong + pong, n_used)))
          else Some (push_bit (t_shift t) (t_zero t), map_option (\<lambda>_. 0) n_used))"
  by pat_completeness auto
termination
  by (relation "measure (\<lambda>(t, n_used, w, hist, n_hist). nat n_hist)") auto

declare ngram_trie_bowt_v.simps [simp del] ngram_trie_prob_v.simps [simp del]

subsection \<open>Creating, retaining and releasing a trie\<close>

text \<open>
  \<^verbatim>\<open>MIN_LOGPROB\<close> is \<^verbatim>\<open>1e-20\<close>. The loop of \<^verbatim>\<open>ngram_trie_init\<close> halves
  \<^verbatim>\<open>t->zero\<close> (an arithmetic shift right by one) and counts the shifts until the value
  fits 16 bits. \<^verbatim>\<open>ckd_calloc\<close> zeroes the structure, so \<^verbatim>\<open>n\<close> and \<^verbatim>\<open>shift\<close> start
  at 0. A trie created without a dictionary gets an empty one of its own.
\<close>

definition MIN_LOGPROB :: real where
  "MIN_LOGPROB = 1 / 10 ^ 20"

function init_shift_loop :: "int \<Rightarrow> nat \<Rightarrow> int \<times> nat" where
  "init_shift_loop zero shift =
     (if zero < - 32768 then init_shift_loop (drop_bit 1 zero) (shift + 1)
      else (zero, shift))"
  by pat_completeness auto
termination
  by (relation "measure (\<lambda>(zero, shift). nat (- zero))") (auto simp: drop_bit_eq_div)

declare init_shift_loop.simps [simp del]

definition ngram_trie_init :: "dict_t option \<Rightarrow> (real \<Rightarrow> int) \<Rightarrow> ngram_trie" where
  "ngram_trie_init d lmath =
     (let (zero, shift) = init_shift_loop (lmath MIN_LOGPROB) 0 in
      \<lparr>t_refcount = 1,
       t_dict = (case d of Some d' \<Rightarrow> d' | None \<Rightarrow> []),
       t_gendict = (case d of Some d' \<Rightarrow> False | None \<Rightarrow> True),
       t_lmath = lmath,
       t_shift = shift,
       t_zero = zero,
       t_n = 0,
       t_counts = [],
       t_root = ngram_trie_node_alloc\<rparr>)"

definition ngram_trie_retain :: "ngram_trie \<Rightarrow> ngram_trie" where
  "ngram_trie_retain t = t\<lparr>t_refcount := t_refcount t + 1\<rparr>"

text \<open>
  \<^verbatim>\<open>ngram_trie_free\<close> takes a pointer that may be \<^verbatim>\<open>NULL\<close> (\<open>None\<close>). It returns
  its status, the trie as it is after the call (\<open>None\<close> when there is none or it has been
  freed) and the release calls it made, in order.
\<close>

datatype release_call = Dict_free | Logmath_free | Ckd_free

definition ngram_trie_free ::
  "ngram_trie option \<Rightarrow> int \<times> ngram_trie option \<times> release_call list" where
  "ngram_trie_free p =
     (case p of
        None \<Rightarrow> (0, None, [])
      | Some t \<Rightarrow>
          (let t = t\<lparr>t_refcount := t_refcount t - 1\<rparr> in
           if t_refcount t > 0 then (t_refcount t, Some t, [])
           else (0, None, [Dict_free, Logmath_free, Ckd_free])))"

subsection \<open>Adding and deleting successors\<close>

definition set_successors :: "ngram_trie_node \<Rightarrow> ngram_trie_node list \<Rightarrow> ngram_trie_node" where
  "set_successors nd cs = Node (word nd) (log_prob nd) (log_bowt nd) cs"

definition set_word :: "ngram_trie_node \<Rightarrow> int \<Rightarrow> ngram_trie_node" where
  "set_word nd w = Node w (log_prob nd) (log_bowt nd) (successors nd)"

text \<open>
  \<^verbatim>\<open>ngram_trie_delete_successor\<close> returns its status and the trie with the successor
  array of \<open>h\<close> changed in place. The node taken out of the array is handed back to the
  pool; nothing refers to its own successors any more.
\<close>

definition ngram_trie_delete_successor ::
  "ngram_trie \<Rightarrow> nodeptr \<Rightarrow> int \<Rightarrow> int \<times> ngram_trie" where
  "ngram_trie_delete_successor t h w =
     (let pos = ngram_trie_successor_pos t h w in
      if pos \<ge> length (successors (deref t h)) then (- 1, t)
      else (0, t\<lparr>t_root := node_update (t_root t) h
                   (\<lambda>nd. set_successors nd (garray_delete (successors nd) pos (pos + 1)))\<rparr>))"

text \<open>
  \<^verbatim>\<open>ngram_trie_add_successor\<close> returns the trie with the new node in the successor
  array of \<open>h\<close>, and the pointer to the new node.
\<close>

definition ngram_trie_add_successor ::
  "ngram_trie \<Rightarrow> nodeptr \<Rightarrow> int \<Rightarrow> ngram_trie \<times> nodeptr" where
  "ngram_trie_add_successor t h w =
     (let ng = set_word ngram_trie_node_alloc w;
          pos = garray_bisect_right (ngram_trie_nodeptr_cmp t) (successors (deref t h)) ng
      in (t\<lparr>t_root := node_update (t_root t) h
               (\<lambda>nd. set_successors nd
                  (if pos = length (successors nd) then garray_append (successors nd) ng
                   else garray_insert (successors nd) pos ng))\<rparr>,
          h @ [pos]))"

subsection \<open>Example tries\<close>

text \<open>
  A trie over a given dictionary, of a given order and with a given root, with no shift.
\<close>

definition example_trie :: "dict_t \<Rightarrow> int \<Rightarrow> ngram_trie_node \<Rightarrow> ngram_trie" where
  "example_trie d n r =
     \<lparr>t_refcount = 1, t_dict = d, t_gendict = False, t_lmath = (\<lambda>p. 0), t_shift = 0,
      t_zero = - 32768, t_n = n, t_counts = [1], t_root = r\<rparr>"

text \<open>The dictionary holds "a" (id 0) and "b" (id 1); the root has the one successor "b".\<close>

definition trie_b :: ngram_trie where
  "trie_b = example_trie [''a'', ''b''] 1 (Node (- 1) 0 0 [Node 1 0 0 []])"

text \<open>The same dictionary; the root has the successors "a" and "b".\<close>

definition trie_ab :: ngram_trie where
  "trie_ab = example_trie [''a'', ''b''] 1 (Node (- 1) 0 0 [Node 0 0 0 [], Node 1 0 0 []])"

subsection \<open>The order of a successor array\<close>

text \<open>
  The surface form of a node's word, which \<^verbatim>\<open>ngram_trie_nodeptr_cmp\<close> compares, and the
  surface forms met when iterating the successor array of a node.
\<close>

definition wordkey :: "dict_t \<Rightarrow> ngram_trie_node \<Rightarrow> string" where
  "wordkey d nd = dict_wordstr d (word nd)"

definition successor_strs :: "ngram_trie \<Rightarrow> nodeptr \<Rightarrow> string list" where
  "successor_strs t h = map (wordkey (t_dict t)) (successors (deref t h))"

text \<open>
  Every successor array in the tree below a node is in non-decreasing order of the surface
  forms.
\<close>

fun node_sorted :: "dict_t \<Rightarrow> ngram_trie_node \<Rightarrow> bool" where
  "node_sorted d (Node w lp lb cs) =
     (sorted (map (wordkey d) cs) \<and> list_all (node_sorted d) cs)"

text \<open>A path that names a node of the tree: every step is inside the array it indexes.\<close>

fun valid_path :: "ngram_trie_node \<Rightarrow> nodeptr \<Rightarrow> bool" where
  "valid_path nd [] = True"
| "valid_path nd (i # p) = (i < length (successors nd) \<and> valid_path (successors nd ! i) p)"

text \<open>Sequences of calls of the two mutators, each on a node pointer and a word.\<close>

datatype trie_op = Add_successor nodeptr int | Delete_successor nodeptr int

fun apply_op :: "ngram_trie \<Rightarrow> trie_op \<Rightarrow> ngram_trie" where
  "apply_op t (Add_successor h w) = fst (ngram_trie_add_successor t h w)"
| "apply_op t (Delete_successor h w) = snd (ngram_trie_delete_successor t h w)"

definition apply_ops :: "ngram_trie \<Rightarrow> trie_op list \<Rightarrow> ngram_trie" where
  "apply_ops t ops = foldl apply_op t ops"

definition trie_empty :: ngram_trie where
  "trie_empty = example_trie [''a'', ''b''] 1 ngram_trie_node_alloc"

subsection \<open>The backoff-weight lookup as a walk along the words\<close>

text \<open>
  The words of a query, the word looked up first and its history after it, newest word
  first. The walk looks the first word up with the rest as its history; when there is no
  node it drops the first word and goes on with the rest; the first node found gives its
  weight, and when no word is left the weight is 0.
\<close>

fun bowt_chain :: "ngram_trie \<Rightarrow> int list \<Rightarrow> int option" where
  "bowt_chain t [] = Some 0"
| "bowt_chain t (w # hist) =
     (case ngram_trie_ngram_v t w hist (int (length hist)) of
        None \<Rightarrow> None
      | Some (Some ng) \<Rightarrow> Some (push_bit (t_shift t) (sint (log_bowt (deref t ng))))
      | Some None \<Rightarrow> bowt_chain t hist)"

text \<open>
  A trie of order 2 with the unigrams "a", "b" and "c" (ids 0, 1, 2), their
  log-probabilities -10, -20, -30 and backoff weights 5, 7, 9.
\<close>

definition trie_abc :: ngram_trie where
  "trie_abc = example_trie [''a'', ''b'', ''c''] 2
     (Node (- 1) 0 0 [Node 0 (- 10) 5 [], Node 1 (- 20) 7 [], Node 2 (- 30) 9 []])"

subsection \<open>The iterator\<close>

text \<open>A failed \<^verbatim>\<open>assert\<close> aborts the program.\<close>

datatype abort = Assertion_failed

text \<open>
  \<^verbatim>\<open>struct ngram_trie_iter_s\<close>; field \<^verbatim>\<open>f\<close> is \<open>it_f\<close>. The field \<^verbatim>\<open>t\<close> is never
  assigned by the functions that create an iterator; the functions of the model take the
  trie as an argument instead.
\<close>

record ngram_trie_iter =
  it_cur :: nodeptr
  it_pos :: nat
  it_nostop :: bool

text \<open>
  Modelled from the spec: \<^verbatim>\<open>garray_ent\<close> on a successor array yields the node pointer
  stored at a position; where the source compares what it read with \<^verbatim>\<open>NULL\<close>, a
  position past the end yields no node.
\<close>

definition garray_ent_node :: "ngram_trie \<Rightarrow> nodeptr \<Rightarrow> nat \<Rightarrow> nodeptr option" where
  "garray_ent_node t h pos =
     (if pos < length (successors (deref t h)) then Some (h @ [pos]) else None)"

text \<open>The \<^verbatim>\<open>for (i = 1; i < n; ++i)\<close> loop of \<^verbatim>\<open>ngram_trie_ngrams\<close>.\<close>

function ngrams_loop :: "ngram_trie \<Rightarrow> nodeptr \<Rightarrow> int \<Rightarrow> int \<Rightarrow> nodeptr option" where
  "ngrams_loop t h i n =
     (if i < n then
        (case garray_ent_node t h 0 of
           None \<Rightarrow> None
         | Some h' \<Rightarrow> ngrams_loop t h' (i + 1) n)
      else Some h)"
  by pat_completeness auto
termination
  by (relation "measure (\<lambda>(t, h, i, n). nat (n - i))") auto

definition ngram_trie_ngrams :: "ngram_trie \<Rightarrow> int \<Rightarrow> ngram_trie_iter option" where
  "ngram_trie_ngrams t n =
     (case ngrams_loop t (ngram_trie_root t) 1 n of
        None \<Rightarrow> None
      | Some h \<Rightarrow> Some \<lparr>it_cur = h, it_pos = 0, it_nostop = False\<rparr>)"

definition ngram_trie_successors :: "ngram_trie \<Rightarrow> nodeptr \<Rightarrow> ngram_trie_iter" where
  "ngram_trie_successors t h = \<lparr>it_cur = h, it_pos = 0, it_nostop = False\<rparr>"

text \<open>
  \<^verbatim>\<open>ngram_trie_next_node\<close> locates the node in its parent's array by the search, with
  the two assertions of the source, and moves to the next node of the same depth.
\<close>

function ngram_trie_next_node :: "ngram_trie \<Rightarrow> nodeptr \<Rightarrow> abort + nodeptr option" where
  "ngram_trie_next_node t ng =
     (case history ng of
        None \<Rightarrow> Inr None
      | Some h \<Rightarrow>
          (let pos = garray_bisect_left (ngram_trie_nodeptr_cmp t) (successors (deref t h))
                       (deref t ng)
           in if \<not> pos < length (successors (deref t h)) then Inl Assertion_failed
              else if \<not> ng = h @ [pos] then Inl Assertion_failed
              else
                (let pos = pos + 1 in
                 if pos = length (successors (deref t h)) then
                   (case ngram_trie_next_node t h of
                      Inl e \<Rightarrow> Inl e
                    | Inr None \<Rightarrow> Inr None
                    | Inr (Some h') \<Rightarrow> Inr (garray_ent_node t h' 0))
                 else Inr (garray_ent_node t h pos))))"
  by pat_completeness auto
termination
  by (relation "measure (\<lambda>(t, ng). length ng)") (auto simp: history_def split: if_splits)

definition ngram_trie_iter_next ::
  "ngram_trie \<Rightarrow> ngram_trie_iter \<Rightarrow> abort + ngram_trie_iter option" where
  "ngram_trie_iter_next t itor =
     (let itor = itor\<lparr>it_pos := it_pos itor + 1\<rparr> in
      if it_pos itor \<ge> length (successors (deref t (it_cur itor))) then
        (if it_nostop itor then
           (case ngram_trie_next_node t (it_cur itor) of
              Inl e \<Rightarrow> Inl e
            | Inr None \<Rightarrow> Inr None
            | Inr (Some cur) \<Rightarrow> Inr (Some (itor\<lparr>it_cur := cur, it_pos := 0\<rparr>)))
         else Inr None)
      else Inr (Some itor))"

definition ngram_trie_iter_get :: "ngram_trie \<Rightarrow> ngram_trie_iter \<Rightarrow> nodeptr option" where
  "ngram_trie_iter_get t itor =
     (if it_pos itor \<ge> length (successors (deref t (it_cur itor))) then None
      else garray_ent_node t (it_cur itor) (it_pos itor))"

text \<open>
  The traversal a caller makes with an iterator,
  \<^verbatim>\<open>for (; itor; itor = ngram_trie_iter_next(itor)) visit(ngram_trie_iter_get(itor))\<close>,
  collecting what it visits. The number of rounds is bounded by \<open>fuel\<close>; \<open>None\<close> is a
  traversal that has not ended within the bound.
\<close>

fun iter_visit ::
  "nat \<Rightarrow> ngram_trie \<Rightarrow> ngram_trie_iter option \<Rightarrow> (abort + nodeptr option list) option" where
  "iter_visit 0 t itor = None"
| "iter_visit (Suc fuel) t None = Some (Inr [])"
| "iter_visit (Suc fuel) t (Some itor) =
     (case ngram_trie_iter_next t itor of
        Inl e \<Rightarrow> Some (Inl e)
      | Inr itor' \<Rightarrow>
          (case iter_visit fuel t itor' of
             None \<Rightarrow> None
           | Some (Inl e) \<Rightarrow> Some (Inl e)
           | Some (Inr ns) \<Rightarrow> Some (Inr (ngram_trie_iter_get t itor # ns))))"

text \<open>
  A trie of order 2 with three bigrams under two histories: "a b" and "a c" under
  "a", and "b a" under "b".
\<close>

definition trie_c :: ngram_trie where
  "trie_c = example_trie [''a'', ''b'', ''c''] 2
     (Node (- 1) 0 0
        [Node 0 0 0 [Node 1 0 0 [], Node 2 0 0 []],
         Node 1 0 0 [Node 0 0 0 []]])"

subsection \<open>Reading text\<close>

text \<open>
  The character classes and conversions of the C library, and the string utilities of
  the base library (\<^verbatim>\<open>string_trim\<close>, \<^verbatim>\<open>str2words\<close>, \<^verbatim>\<open>atof_c\<close>), none of them
  part of this file. \<^verbatim>\<open>atoi\<close> skips white space and reads a sign and digits.
\<close>

definition isspace :: "char \<Rightarrow> bool" where
  "isspace c = (c = CHR '' '' \<or> c = CHR 0x09 \<or> c = CHR 0x0A \<or> c = CHR 0x0B \<or>
                c = CHR 0x0C \<or> c = CHR 0x0D)"

definition isdigit :: "char \<Rightarrow> bool" where
  "isdigit c = (CHR ''0'' \<le> c \<and> c \<le> CHR ''9'')"

definition digit_val :: "char \<Rightarrow> int" where
  "digit_val c = of_char c - 48"

fun atoi_digits :: "int \<Rightarrow> string \<Rightarrow> int" where
  "atoi_digits acc [] = acc"
| "atoi_digits acc (c # cs) =
     (if isdigit c then atoi_digits (acc * 10 + digit_val c) cs else acc)"

definition atoi :: "string \<Rightarrow> int" where
  "atoi s =
     (case dropWhile isspace s of
        [] \<Rightarrow> 0
      | c # cs \<Rightarrow>
          if c = CHR ''-'' then - atoi_digits 0 cs
          else if c = CHR ''+'' then atoi_digits 0 cs
          else atoi_digits 0 (c # cs))"

text \<open>
  Modelled from the spec: \<^verbatim>\<open>atof_c\<close> reads a number in decimal notation: a sign,
  digits, and a point with digits after it. The value is a real number in place of a
  \<^verbatim>\<open>double\<close>; an exponent is not read.
\<close>

fun atof_int :: "real \<Rightarrow> string \<Rightarrow> real \<times> string" where
  "atof_int acc [] = (acc, [])"
| "atof_int acc (c # cs) =
     (if isdigit c then atof_int (acc * 10 + of_int (digit_val c)) cs else (acc, c # cs))"

fun atof_frac :: "real \<Rightarrow> real \<Rightarrow> string \<Rightarrow> real" where
  "atof_frac acc scale [] = acc"
| "atof_frac acc scale (c # cs) =
     (if isdigit c then atof_frac (acc + of_int (digit_val c) * scale) (scale / 10) cs
      else acc)"

definition atof_unsigned :: "string \<Rightarrow> real" where
  "atof_unsigned s =
     (case atof_int 0 s of
        (v, []) \<Rightarrow> v
      | (v, c # cs) \<Rightarrow> if c = CHR ''.'' then atof_frac v (1 / 10) cs else v)"

definition atof_c :: "string \<Rightarrow> real" where
  "atof_c s =
     (case dropWhile isspace s of
        [] \<Rightarrow> 0
      | c # cs \<Rightarrow>
          if c = CHR ''-'' then - atof_unsigned cs
          else if c = CHR ''+'' then atof_unsigned cs
          else atof_unsigned (c # cs))"

text \<open>
  Modelled from the spec: \<^verbatim>\<open>string_trim\<close> with \<^verbatim>\<open>STRING_BOTH\<close> removes the white
  space at both ends of a line, and \<^verbatim>\<open>str2words\<close> splits a line into its
  whitespace-separated fields.
\<close>

definition string_trim :: "string \<Rightarrow> string" where
  "string_trim s = rev (dropWhile isspace (rev (dropWhile isspace s)))"

fun str2words_from :: "string \<Rightarrow> string \<Rightarrow> string list" where
  "str2words_from cur [] = (if cur = [] then [] else [rev cur])"
| "str2words_from cur (c # cs) =
     (if isspace c then (if cur = [] then str2words_from [] cs else rev cur # str2words_from [] cs)
      else str2words_from (c # cur) cs)"

definition str2words :: "string \<Rightarrow> string list" where
  "str2words buf = str2words_from [] buf"

subsection \<open>The ARPA loader\<close>

text \<open>
  The outcome of a call that may fail an assertion, or may call the path lookup:
  \<open>None\<close> is a call that does not return, \<open>Some (Inl Assertion_failed)\<close> an abort,
  \<open>Some (Inr v)\<close> the return of \<open>v\<close>.
\<close>

type_synonym 'a outcome = "(abort + 'a) option"

definition backslash :: char where
  "backslash = CHR 0x5C"

definition data_marker :: string where
  "data_marker = backslash # ''data'' @ [backslash]"

definition end_marker :: string where
  "end_marker = backslash # ''end'' @ [backslash]"

text \<open>
  Modelled from the spec: the line iterator (\<^verbatim>\<open>lineiter_t\<close>) is the list of the lines
  from the current one on; \<^verbatim>\<open>NULL\<close>, the end of the input, is the empty list. A
  function that advances the iterator returns the list it stopped at, the current line
  trimmed in place.
\<close>

fun skip_arpa_header :: "string list \<Rightarrow> int \<times> string list" where
  "skip_arpa_header [] = (- 1, [])"
| "skip_arpa_header (l # li) =
     (let buf = string_trim l in
      if strcmp buf data_marker = 0 then (0, buf # li)
      else skip_arpa_header li)"

text \<open>
  Modelled from the spec: the counts table grows to hold the index written
  (\<^verbatim>\<open>garray_expand_to\<close>, new entries 0) and \<^verbatim>\<open>garray_put\<close> writes an entry in
  range; a write outside the array, undefined in the source, leaves the model's array as
  it is. \<^verbatim>\<open>strchr\<close> is the position of the first occurrence of a character.
\<close>

definition garray_expand_to :: "int list \<Rightarrow> int \<Rightarrow> int list" where
  "garray_expand_to gar n_ent =
     (if int (length gar) < n_ent then gar @ replicate (nat n_ent - length gar) 0 else gar)"

definition garray_put :: "int list \<Rightarrow> int \<Rightarrow> int \<Rightarrow> int list" where
  "garray_put gar idx v = (if 0 \<le> idx \<and> idx < int (length gar) then gar[nat idx := v] else gar)"

fun strchr :: "string \<Rightarrow> char \<Rightarrow> nat option" where
  "strchr [] c = None"
| "strchr (x # xs) c = (if x = c then Some 0 else map_option Suc (strchr xs c))"

text \<open>
  \<^verbatim>\<open>read_ngram_counts\<close> returns the number of orders, the iterator and the counts.
\<close>

fun read_ngram_counts_loop :: "string list \<Rightarrow> int list \<Rightarrow> int \<times> string list \<times> int list" where
  "read_ngram_counts_loop [] counts = (int (length counts) - 1, [], counts)"
| "read_ngram_counts_loop (l # li) counts =
     (let buf = string_trim l in
      if length buf = 0 then (int (length counts) - 1, buf # li, counts)
      else if take 6 buf = ''ngram '' then
        (let n = drop 6 buf in
         case strchr n (CHR ''='') of
           None \<Rightarrow> (- 1, buf # li, counts)
         | Some c \<Rightarrow>
             if drop (c + 1) n = [] then (- 1, buf # li, counts)
             else
               (let ni = atoi (take c n);
                    ci = atoi (drop (c + 1) n);
                    counts = garray_expand_to counts (ni + 1);
                    counts = garray_put counts ni ci
                in read_ngram_counts_loop li counts))
      else read_ngram_counts_loop li counts)"

definition read_ngram_counts :: "string list \<Rightarrow> int list \<Rightarrow> int \<times> string list \<times> int list" where
  "read_ngram_counts li counts = read_ngram_counts_loop li (garray_append [] 1)"

text \<open>
  The loop of \<^verbatim>\<open>add_ngram_line\<close> that resolves the history words into
  \<^verbatim>\<open>wids[1..n-1]\<close>; \<open>None\<close> is the return of \<^verbatim>\<open>NULL\<close> on an unknown word.
\<close>

function fill_wids :: "dict_t \<Rightarrow> string list \<Rightarrow> int \<Rightarrow> int \<Rightarrow> int list \<Rightarrow> int list option" where
  "fill_wids d wptr n i wids =
     (if i < n then
        (let wid = dict_wordid d (wptr ! nat (n - i)) in
         if wid = BAD_S3WID then None
         else fill_wids d wptr n (i + 1) (wids @ [wid]))
      else Some wids)"
  by pat_completeness auto
termination
  by (relation "measure (\<lambda>(d, wptr, n, i, wids). nat (n - i))") auto

text \<open>
  The loop of \<^verbatim>\<open>add_ngram_line\<close> that compares the cached history node, going up
  through \<^verbatim>\<open>history\<close>, with the history words of the line; its value is the final
  \<^verbatim>\<open>i\<close>.
\<close>

function last_history_loop ::
  "ngram_trie \<Rightarrow> int list \<Rightarrow> int \<Rightarrow> nodeptr option \<Rightarrow> int \<Rightarrow> int" where
  "last_history_loop t wids n h i =
     (case h of
        None \<Rightarrow> i
      | Some hp \<Rightarrow>
          if i < n then
            (if word (deref t hp) \<noteq> wids ! nat i then i
             else last_history_loop t wids n (history hp) (i + 1))
          else i)"
  by pat_completeness auto
termination
  by (relation "measure (\<lambda>(t, wids, n, h, i). nat (n - i))") auto

text \<open>
  The end of \<^verbatim>\<open>add_ngram_line\<close>: the new successor of the history node, with the
  values converted by the log-math, shifted and stored in the 16-bit fields.
\<close>

definition set_log_values :: "ngram_trie_node \<Rightarrow> 16 word \<Rightarrow> 16 word \<Rightarrow> ngram_trie_node" where
  "set_log_values nd lp lb = Node (word nd) lp lb (successors nd)"

definition add_ngram_node ::
  "ngram_trie \<Rightarrow> nodeptr \<Rightarrow> int \<Rightarrow> real \<Rightarrow> real \<Rightarrow>
   (nodeptr option \<times> ngram_trie \<times> nodeptr option) outcome" where
  "add_ngram_node t last_history wid prob bowt =
     (case ngram_trie_add_successor t last_history wid of
        (t, node) \<Rightarrow>
          (let log_prob = word_of_int (drop_bit (t_shift t) (t_lmath t prob));
               log_bowt = word_of_int (drop_bit (t_shift t) (t_lmath t bowt));
               t = t\<lparr>t_root := node_update (t_root t) node
                                  (\<lambda>nd. set_log_values nd log_prob log_bowt)\<rparr>
           in Some (Inr (Some node, t, Some last_history))))"

text \<open>
  \<^verbatim>\<open>add_ngram_line\<close> returns the node it added or \<^verbatim>\<open>NULL\<close>, the trie, and the
  cached history node \<^verbatim>\<open>*last_history\<close>. The warnings and errors it logs are not
  modelled: a line skipped with a warning and a malformed line both return \<^verbatim>\<open>NULL\<close>.
\<close>

definition add_ngram_line ::
  "ngram_trie \<Rightarrow> string \<Rightarrow> int \<Rightarrow> nodeptr option \<Rightarrow>
   (nodeptr option \<times> ngram_trie \<times> nodeptr option) outcome" where
  "add_ngram_line t buf n last_history =
     (let wptr = str2words buf; nwords = int (length wptr) in
      if \<not> nwords \<le> n + 2 then Some (Inl Assertion_failed)
      else if nwords < n + 1 then Some (Inr (None, t, last_history))
      else
        (let prob = atof_c (wptr ! 0);
             bowt = (if nwords = n + 2 then atof_c (wptr ! nat (n + 1)) else 0);
             wid0 = dict_wordid (t_dict t) (wptr ! nat n)
         in if wid0 = BAD_S3WID \<and> \<not> t_gendict t then Some (Inr (None, t, last_history))
            else
              (let (t, wid0) =
                     (if wid0 = BAD_S3WID then
                        (case dict_add_word (t_dict t) (wptr ! nat n) of
                           (d, wid) \<Rightarrow> (t\<lparr>t_dict := d\<rparr>, wid))
                      else (t, wid0))
               in case fill_wids (t_dict t) wptr n 1 [wid0] of
                    None \<Rightarrow> Some (Inr (None, t, last_history))
                  | Some wids \<Rightarrow>
                      if n = 1 then
                        (case last_history of
                           None \<Rightarrow> Some (Inl Assertion_failed)
                         | Some h \<Rightarrow>
                             if h = ngram_trie_root t
                             then add_ngram_node t h (wids ! 0) prob bowt
                             else Some (Inl Assertion_failed))
                      else
                        (let i = last_history_loop t wids n last_history 1 in
                         case (if i < n
                               then ngram_trie_ngram_v t (wids ! 1) (drop 2 wids) (n - 2)
                               else Some last_history) of
                           None \<Rightarrow> None
                         | Some None \<Rightarrow> Some (Inr (None, t, None))
                         | Some (Some h) \<Rightarrow> add_ngram_node t h (wids ! 0) prob bowt))))"

text \<open>
  \<^verbatim>\<open>read_ngrams\<close> returns its status (0 at the end marker, the next order at the
  marker of a higher order, -1 on an error), the trie and the iterator.
\<close>

fun read_ngrams_loop ::
  "ngram_trie \<Rightarrow> int \<Rightarrow> nodeptr option \<Rightarrow> string list \<Rightarrow>
   (int \<times> ngram_trie \<times> string list) outcome" where
  "read_ngrams_loop t n last_history [] = Some (Inr (- 1, t, []))"
| "read_ngrams_loop t n last_history (l # li) =
     (let buf = string_trim l in
      if length buf = 0 then read_ngrams_loop t n last_history li
      else if strcmp buf end_marker = 0 then Some (Inr (0, t, buf # li))
      else if hd buf = backslash then
        (if \<not> (case tl buf of [] \<Rightarrow> False | c # cs \<Rightarrow> isdigit c)
         then Some (Inr (- 1, t, buf # li))
         else if strcmp (dropWhile isdigit (tl buf)) ''-grams:'' \<noteq> 0
         then Some (Inr (- 1, t, buf # li))
         else
           (let nn = atoi (tl buf) in
            if nn > n then Some (Inr (nn, t, buf # li))
            else read_ngrams_loop t n last_history li))
      else
        (case add_ngram_line t buf n last_history of
           None \<Rightarrow> None
         | Some (Inl e) \<Rightarrow> Some (Inl e)
         | Some (Inr (node, t', last_history')) \<Rightarrow>
             if node = None then Some (Inr (- 1, t', buf # li))
             else read_ngrams_loop t' n last_history' li))"

definition read_ngrams ::
  "ngram_trie \<Rightarrow> string list \<Rightarrow> int \<Rightarrow> (int \<times> ngram_trie \<times> string list) outcome" where
  "read_ngrams t li n =
     read_ngrams_loop t n (if n = 1 then Some (ngram_trie_root t) else None) li"

text \<open>
  The loop \<^verbatim>\<open>while ((n = read_ngrams(t, li, n)) > 1)\<close> of \<^verbatim>\<open>ngram_trie_read_arpa\<close>.
\<close>

partial_function (option) read_arpa_loop ::
  "ngram_trie \<Rightarrow> string list \<Rightarrow> int \<Rightarrow> (abort + int \<times> ngram_trie \<times> string list) option" where
  "read_arpa_loop t li n =
     (case read_ngrams t li n of
        None \<Rightarrow> None
      | Some (Inl e) \<Rightarrow> Some (Inl e)
      | Some (Inr (n', t', li')) \<Rightarrow>
          if n' > 1 then read_arpa_loop t' li' n'
          else Some (Inr (n', t', li')))"

declare read_arpa_loop.simps [code]

definition ngram_trie_read_arpa :: "ngram_trie \<Rightarrow> string list \<Rightarrow> (int \<times> ngram_trie) outcome" where
  "ngram_trie_read_arpa t arpafile =
     (case skip_arpa_header arpafile of
        (status, li) \<Rightarrow>
          if status < 0 then Some (Inr (- 1, t))
          else
            (case read_ngram_counts li (t_counts t) of
               (n, li, counts) \<Rightarrow>
                 (let t = t\<lparr>t_n := n, t_counts := counts\<rparr> in
                  if n < 0 then Some (Inr (- 1, t))
                  else
                    (case read_arpa_loop t li 1 of
                       None \<Rightarrow> None
                     | Some (Inl e) \<Rightarrow> Some (Inl e)
                     | Some (Inr (n, t, li)) \<Rightarrow>
                         if n < 0 then Some (Inr (- 1, t)) else Some (Inr (0, t))))))"

text \<open>
  \<^verbatim>\<open>ngram_trie_prob\<close> takes the history as a \<^verbatim>\<open>NULL\<close>-terminated argument list,
  here a list of strings.
\<close>

definition ngram_trie_prob ::
  "ngram_trie \<Rightarrow> int option \<Rightarrow> string \<Rightarrow> string list \<Rightarrow> (int \<times> int option) option" where
  "ngram_trie_prob t n_used w hs =
     (let wid = dict_wordid (t_dict t) w;
          hist = map (dict_wordid (t_dict t)) hs;
          n_hist = int (length hs)
      in ngram_trie_prob_v t n_used wid hist n_hist)"

subsection \<open>Example models\<close>

text \<open>
  Scenario A: the unigrams "a", "b" and "<unk>" with the base-10
  log-probabilities -1.0, -2.0 and -3.0, the bigram "a b" with -0.5, no backoff weights.
\<close>

definition scenario_a :: "string list" where
  "scenario_a =
     [''A 2-gram model'',
      data_marker,
      ''ngram 1=3'',
      ''ngram 2=1'',
      [],
      backslash # ''1-grams:'',
      ''-1.0 a'',
      ''-2.0 b'',
      ''-3.0 <unk>'',
      [],
      backslash # ''2-grams:'',
      ''-0.5 a b'',
      [],
      end_marker]"

text \<open>
  A model whose first unigram line has a word the dictionary does not hold; a model whose
  first bigram line has an unknown history word; and a model whose first bigram line has
  a history word that the dictionary holds and that has no unigram.
\<close>

definition arpa_unknown_unigram :: "string list" where
  "arpa_unknown_unigram =
     [data_marker,
      ''ngram 1=2'',
      [],
      backslash # ''1-grams:'',
      ''-1.0 x'',
      ''-1.0 a'',
      [],
      end_marker]"

definition arpa_unknown_history_word :: "string list" where
  "arpa_unknown_history_word =
     [data_marker,
      ''ngram 1=1'',
      ''ngram 2=2'',
      [],
      backslash # ''1-grams:'',
      ''-1.0 a'',
      [],
      backslash # ''2-grams:'',
      ''-0.5 zz a'',
      ''-0.5 a a'',
      [],
      end_marker]"

definition arpa_unknown_history_path :: "string list" where
  "arpa_unknown_history_path =
     [data_marker,
      ''ngram 1=1'',
      ''ngram 2=2'',
      [],
      backslash # ''1-grams:'',
      ''-1.0 a'',
      [],
      backslash # ''2-grams:'',
      ''-0.5 b a'',
      ''-0.5 a a'',
      [],
      end_marker]"

text \<open>
  The quantized form of a value: converted by the log-math, shifted right and stored in
  16 bits, and shifted left again when read.
\<close>

definition store16 :: "ngram_trie \<Rightarrow> real \<Rightarrow> 16 word" where
  "store16 t p = word_of_int (drop_bit (t_shift t) (t_lmath t p))"

definition quantized :: "ngram_trie \<Rightarrow> real \<Rightarrow> int" where
  "quantized t p = push_bit (t_shift t) (sint (store16 t p))"

text \<open>
  A log-math whose unit is a thousandth of a base-10 logarithm, applied to the values as
  the model file has them.
\<close>

definition example_lmath :: "real \<Rightarrow> int" where
  "example_lmath p = \<lfloor>p * 1000\<rfloor>"

section \<open>The path lookup and the queries on a tree\<close>

text \<open>
  The nodes of the model form a tree. On a tree the loop of the lookup returns, and so do
  the queries; the lemmas of this section say how.
\<close>

lemma node_at_append: "node_at nd (p @ q) = node_at (node_at nd p) q"
  by (induction p arbitrary: nd) simp_all

lemma size_successor_less:
  "i < length (successors nd) \<Longrightarrow> size (successors nd ! i) < size nd"
proof (cases nd)
  case (Node w lp lb cs)
  assume "i < length (successors nd)"
  with Node have "cs ! i \<in> set cs" by simp
  then have "size (cs ! i) \<le> size_list size cs"
    by (rule size_list_estimation') simp
  with Node show ?thesis by simp
qed

lemma ngram_trie_successor_size:
  assumes "ngram_trie_successor t h w = Some p"
  shows "size (deref t p) < size (deref t h)"
proof -
  from assms obtain pos where pos: "pos < length (successors (deref t h))" and p: "p = h @ [pos]"
    by (auto simp: ngram_trie_successor_def Let_def split: if_splits)
  have "deref t p = successors (deref t h) ! pos"
    by (simp add: p deref_def node_at_append)
  with pos show ?thesis by (simp add: size_successor_less)
qed

text \<open>
  The loop never leaves through its condition once it has been entered: every round
  goes one level down the tree, and a tree has finitely many levels, so the loop always
  ends by returning \<^verbatim>\<open>NULL\<close>.
\<close>

lemma ngram_v_loop_entered:
  "0 < n_hist \<Longrightarrow> ngram_v_loop t node hist n_hist = Some None"
proof (induction "size (deref t node)" arbitrary: node rule: less_induct)
  case less
  show ?case
  proof (cases "ngram_trie_successor t node (hist ! nat (n_hist - 1))")
    case None
    with less.prems show ?thesis
      by (subst ngram_v_loop.simps) simp
  next
    case (Some node')
    then have "size (deref t node') < size (deref t node)"
      by (rule ngram_trie_successor_size)
    then have "ngram_v_loop t node' hist n_hist = Some None"
      using less.prems by (rule less.hyps)
    with Some less.prems show ?thesis
      by (subst ngram_v_loop.simps) simp
  qed
qed

lemma ngram_v_loop_skipped:
  "\<not> 0 < n_hist \<Longrightarrow> ngram_v_loop t node hist n_hist = Some (Some node)"
  by (subst ngram_v_loop.simps) simp

lemma ngram_trie_ngram_v_returns:
  "\<exists>r. ngram_trie_ngram_v t w hist n_hist = Some r"
proof (cases "0 < (if n_hist > t_n t - 1 then t_n t - 1 else n_hist)")
  case True
  then show ?thesis
    by (simp add: ngram_trie_ngram_v_def Let_def ngram_v_loop_entered)
next
  case False
  then show ?thesis
    by (simp add: ngram_trie_ngram_v_def Let_def ngram_v_loop_skipped)
qed

lemma ngram_trie_bowt_v_returns:
  "\<exists>r. ngram_trie_bowt_v t w hist n_hist = Some r"
proof (induction t w hist n_hist rule: ngram_trie_bowt_v.induct)
  case (1 t w hist n_hist)
  obtain r where r: "ngram_trie_ngram_v t w hist n_hist = Some r"
    using ngram_trie_ngram_v_returns by blast
  show ?case
  proof (cases r)
    case None
    with r "1.IH" show ?thesis
      by (cases "n_hist > 0") (simp_all add: ngram_trie_bowt_v.simps [of t w hist n_hist])
  next
    case (Some ng)
    with r show ?thesis by (simp add: ngram_trie_bowt_v.simps [of t w hist n_hist])
  qed
qed

lemma ngram_trie_prob_v_returns:
  "\<exists>r. ngram_trie_prob_v t n_used w hist n_hist = Some r"
proof (induction t n_used w hist n_hist rule: ngram_trie_prob_v.induct)
  case (1 t n_used w hist n_hist)
  obtain r where r: "ngram_trie_ngram_v t w hist n_hist = Some r"
    using ngram_trie_ngram_v_returns by blast
  show ?case
  proof (cases r)
    case (Some ng)
    with r show ?thesis
      by (simp add: ngram_trie_prob_v.simps [of t n_used w hist n_hist] Let_def)
  next
    case None
    show ?thesis
    proof (cases "n_hist > 0")
      case False
      with r None show ?thesis
        by (simp add: ngram_trie_prob_v.simps [of t n_used w hist n_hist] Let_def)
    next
      case True
      from "1.IH" [OF refl r None True refl]
      obtain bong nu where
        b: "ngram_trie_prob_v t (map_option (\<lambda>v. v - 1) (map_option (\<lambda>_. n_hist + 1) n_used))
              w hist (n_hist - 1) = Some (bong, nu)"
        by auto
      obtain pong where p: "ngram_trie_bowt_v t (hist ! 0) (drop 1 hist) (n_hist - 1) = Some pong"
        using ngram_trie_bowt_v_returns by blast
      from r None True b p show ?thesis
        by (simp add: ngram_trie_prob_v.simps [of t n_used w hist n_hist] Let_def)
    qed
  qed
qed


section \<open>Lookup and deletion of a successor\<close>

lemma strcmp_simps:
  "strcmp ''a'' ''b'' = - 1" "strcmp ''b'' ''a'' = 1"
  "strcmp ''a'' ''a'' = 0" "strcmp ''b'' ''b'' = 0"
  by (simp_all add: strcmp_def)

text \<open>
  C2. \<^verbatim>\<open>ngram_trie_successor\<close> at the root of \<open>trie_b\<close>, whose only successor is
  "b", asked for "a": the search position 0 is inside the array and the node at
  it is returned, although its word is "b".
\<close>

theorem ngram_trie_successor_other_child:
  "ngram_trie_successor trie_b [] 0 = Some [0] \<and>
   map word (successors (deref trie_b [])) = [1] \<and>
   word (deref trie_b [0]) = 1"
  by (simp add: ngram_trie_successor_def ngram_trie_successor_pos_def garray_bisect_left_def
      ngram_trie_nodeptr_cmp_def dict_wordstr_def strcmp_simps trie_b_def example_trie_def
      deref_def Let_def)

text \<open>
  C4. \<^verbatim>\<open>ngram_trie_delete_successor\<close> at the root of \<open>trie_b\<close>, asked to delete
  "a", which is not there: the status is 0 and the successor "b" is gone. At the
  root of \<open>trie_ab\<close> it deletes "a", and a lookup of "a" afterwards returns the
  node of "b".
\<close>

theorem ngram_trie_delete_successor_other_child:
  "ngram_trie_delete_successor trie_b [] 0 = (0, trie_b\<lparr>t_root := Node (- 1) 0 0 []\<rparr>) \<and>
   ngram_trie_delete_successor trie_ab [] 0 = (0, trie_b) \<and>
   ngram_trie_successor (snd (ngram_trie_delete_successor trie_ab [] 0)) [] 0 = Some [0]"
  by (simp add: ngram_trie_delete_successor_def ngram_trie_successor_def
      ngram_trie_successor_pos_def garray_bisect_left_def garray_delete_def set_successors_def
      ngram_trie_nodeptr_cmp_def dict_wordstr_def strcmp_simps trie_b_def trie_ab_def
      example_trie_def deref_def Let_def)

section \<open>Reference counting\<close>

text \<open>
  C10. \<^verbatim>\<open>ngram_trie_free(NULL)\<close> returns 0 and does nothing. On a trie whose
  reference count is above 1 it only decrements the count and returns the count that
  remains, releasing nothing. So on a trie in use (count at least 1),
  \<^verbatim>\<open>ngram_trie_free(ngram_trie_retain(t))\<close> returns the count and leaves the trie as
  it was.
\<close>

theorem ngram_trie_free_refcount:
  "ngram_trie_free None = (0, None, []) \<and>
   (1 < t_refcount t \<longrightarrow>
      ngram_trie_free (Some t) =
        (t_refcount t - 1, Some (t\<lparr>t_refcount := t_refcount t - 1\<rparr>), [])) \<and>
   (0 < t_refcount t \<longrightarrow>
      ngram_trie_free (Some (ngram_trie_retain t)) = (t_refcount t, Some t, []))"
  by (simp add: ngram_trie_free_def ngram_trie_retain_def Let_def)

theorem ngram_trie_free_refcount_witness:
  "1 < t_refcount (ngram_trie_retain trie_b) \<and>
   ngram_trie_free (Some (ngram_trie_retain trie_b)) = (1, Some trie_b, []) \<and>
   ngram_trie_free (Some (ngram_trie_retain (ngram_trie_retain trie_b))) =
     (2, Some (ngram_trie_retain trie_b), [])"
proof -
  have 1: "t_refcount trie_b = 1"
    by (simp add: trie_b_def example_trie_def)
  have 2: "t_refcount (ngram_trie_retain trie_b) = 2"
    by (simp add: ngram_trie_retain_def 1)
  from ngram_trie_free_refcount [of "ngram_trie_retain trie_b"] 2
  have "ngram_trie_free (Some (ngram_trie_retain (ngram_trie_retain trie_b))) =
     (2, Some (ngram_trie_retain trie_b), [])"
    by simp
  moreover from ngram_trie_free_refcount [of trie_b] 1
  have "ngram_trie_free (Some (ngram_trie_retain trie_b)) = (1, Some trie_b, [])"
    by simp
  ultimately show ?thesis using 2 by simp
qed

section \<open>The order of the successor arrays\<close>

lemma strcmp_less: "strcmp a b < 0 \<longleftrightarrow> a < b"
  by (simp add: strcmp_def)

lemma cmp_less: "ngram_trie_nodeptr_cmp t na nb < 0 \<longleftrightarrow> wordkey (t_dict t) na < wordkey (t_dict t) nb"
  by (simp add: ngram_trie_nodeptr_cmp_def strcmp_less wordkey_def)

lemma bisect_right_loop_bounds:
  fixes k :: "'a \<Rightarrow> 'b::linorder"
  assumes "\<forall>a b. cmp a b < 0 \<longleftrightarrow> k a < k b"
    and "sorted (map k gar)" and "lo \<le> hi" and "hi \<le> length gar"
    and "\<forall>i<lo. k (gar ! i) \<le> k ent"
    and "\<forall>i. hi \<le> i \<and> i < length gar \<longrightarrow> k ent < k (gar ! i)"
  shows "garray_bisect_right_loop cmp gar ent lo hi \<le> length gar \<and>
         (\<forall>i<garray_bisect_right_loop cmp gar ent lo hi. k (gar ! i) \<le> k ent) \<and>
         (\<forall>i. garray_bisect_right_loop cmp gar ent lo hi \<le> i \<and> i < length gar \<longrightarrow> k ent < k (gar ! i))"
  using assms
proof (induction cmp gar ent lo hi rule: garray_bisect_right_loop.induct)
  case (1 cmp gar ent lo hi)
  show ?case
  proof (cases "lo < hi")
    case False
    with "1.prems" have "lo = hi" by simp
    with "1.prems" False show ?thesis by simp
  next
    case True
    define mid where "mid = (lo + hi) div 2"
    have mid: "lo \<le> mid" "mid < hi" using True by (simp_all add: mid_def)
    have mono: "\<And>i j. i \<le> j \<Longrightarrow> j < length gar \<Longrightarrow> k (gar ! i) \<le> k (gar ! j)"
      using "1.prems"(2) by (simp add: sorted_iff_nth_mono)
    show ?thesis
    proof (cases "cmp ent (gar ! mid) < 0")
      case less: True
      then have lt: "k ent < k (gar ! mid)" using "1.prems"(1) by simp
      have hi': "\<forall>i. mid \<le> i \<and> i < length gar \<longrightarrow> k ent < k (gar ! i)"
        using lt mono by (meson less_le_trans)
      have "garray_bisect_right_loop cmp gar ent lo hi = garray_bisect_right_loop cmp gar ent lo mid"
        using True less by (simp add: mid_def Let_def)
      moreover have "garray_bisect_right_loop cmp gar ent lo mid \<le> length gar \<and>
         (\<forall>i<garray_bisect_right_loop cmp gar ent lo mid. k (gar ! i) \<le> k ent) \<and>
         (\<forall>i. garray_bisect_right_loop cmp gar ent lo mid \<le> i \<and> i < length gar \<longrightarrow> k ent < k (gar ! i))"
        using "1.IH"(1) [OF True mid_def less "1.prems"(1) "1.prems"(2) mid(1) _ "1.prems"(5) hi']
          mid "1.prems"(4) by simp
      ultimately show ?thesis by simp
    next
      case ge: False
      then have le: "k (gar ! mid) \<le> k ent" using "1.prems"(1) by (simp add: not_less)
      have lo': "\<forall>i<mid + 1. k (gar ! i) \<le> k ent"
      proof (intro allI impI)
        fix i assume "i < mid + 1"
        then have "i \<le> mid" by simp
        moreover have "mid < length gar" using mid "1.prems"(4) by simp
        ultimately have "k (gar ! i) \<le> k (gar ! mid)" by (rule mono)
        with le show "k (gar ! i) \<le> k ent" by simp
      qed
      have "garray_bisect_right_loop cmp gar ent lo hi = garray_bisect_right_loop cmp gar ent (mid + 1) hi"
        using True ge by (simp add: mid_def Let_def)
      moreover have "garray_bisect_right_loop cmp gar ent (mid + 1) hi \<le> length gar \<and>
         (\<forall>i<garray_bisect_right_loop cmp gar ent (mid + 1) hi. k (gar ! i) \<le> k ent) \<and>
         (\<forall>i. garray_bisect_right_loop cmp gar ent (mid + 1) hi \<le> i \<and> i < length gar \<longrightarrow> k ent < k (gar ! i))"
        using "1.IH"(2) [OF True mid_def ge "1.prems"(1) "1.prems"(2) _ "1.prems"(4) lo' "1.prems"(6)]
          mid by simp
      ultimately show ?thesis by simp
    qed
  qed
qed

lemma sorted_garray_insert:
  fixes k :: "'a \<Rightarrow> 'b::linorder"
  assumes "sorted (map k xs)" and "r \<le> length xs"
    and "\<forall>i<r. k (xs ! i) \<le> k e"
    and "\<forall>i. r \<le> i \<and> i < length xs \<longrightarrow> k e < k (xs ! i)"
  shows "sorted (map k (garray_insert xs r e))"
proof -
  have 1: "sorted (map k (take r xs))"
    using assms(1) by (simp add: take_map [symmetric] sorted_wrt_take)
  have 2: "sorted (map k (drop r xs))"
    using assms(1) by (simp add: drop_map [symmetric] sorted_wrt_drop)
  have 3: "\<forall>x\<in>set (take r xs). k x \<le> k e"
    using assms(2,3) by (auto simp: in_set_conv_nth)
  have 4: "\<forall>y\<in>set (drop r xs). k e \<le> k y"
  proof
    fix y assume "y \<in> set (drop r xs)"
    then obtain i where i: "i < length xs - r" "y = drop r xs ! i"
      by (auto simp: in_set_conv_nth)
    then have "y = xs ! (r + i)" using assms(2) by simp
    moreover have "k e < k (xs ! (r + i))" using assms(4) i(1) by simp
    ultimately show "k e \<le> k y" by simp
  qed
  have 5: "\<forall>x\<in>set (take r xs). \<forall>y\<in>set (drop r xs). k x \<le> k y"
    using 3 4 by (meson order_trans)
  show ?thesis
    using 1 2 3 4 5 by (simp add: garray_insert_def sorted_append)
qed

lemma sorted_garray_delete:
  fixes k :: "'a \<Rightarrow> 'b::linorder"
  assumes "sorted (map k xs)" and "s \<le> e"
  shows "sorted (map k (garray_delete xs s e))"
proof -
  have "sorted (take s (map k xs) @ drop s (map k xs))" using assms(1) by simp
  then have a: "sorted (take s (map k xs))" "sorted (drop s (map k xs))"
    "\<forall>x\<in>set (take s (map k xs)). \<forall>y\<in>set (drop s (map k xs)). x \<le> y"
    unfolding sorted_append by blast+
  have "set (drop e (map k xs)) \<subseteq> set (drop s (map k xs))"
    using assms(2) by (rule set_drop_subset_set_drop)
  moreover have "sorted (drop e (map k xs))" using assms(1) by (rule sorted_wrt_drop)
  ultimately have "sorted (take s (map k xs) @ drop e (map k xs))"
    using a unfolding sorted_append by blast
  then show ?thesis by (simp add: garray_delete_def take_map drop_map)
qed

lemma node_sorted_iff:
  "node_sorted d nd \<longleftrightarrow>
     sorted (map (wordkey d) (successors nd)) \<and> list_all (node_sorted d) (successors nd)"
  by (cases nd) simp

lemma word_node_update:
  "\<forall>x. word (f x) = word x \<Longrightarrow> word (node_update nd p f) = word nd"
  by (cases p) simp_all

lemma node_sorted_node_at:
  "node_sorted d nd \<Longrightarrow> valid_path nd p \<Longrightarrow> node_sorted d (node_at nd p)"
proof (induction p arbitrary: nd)
  case Nil
  then show ?case by simp
next
  case (Cons i p)
  from Cons.prems have "node_sorted d (successors nd ! i)"
    by (simp add: node_sorted_iff [of d nd] list_all_length)
  with Cons show ?case by simp
qed

lemma node_sorted_node_update:
  assumes "\<forall>x. word (f x) = word x"
    and "node_sorted d nd"
    and "valid_path nd p \<Longrightarrow> node_sorted d (f (node_at nd p))"
  shows "node_sorted d (node_update nd p f)"
  using assms(2,3)
proof (induction p arbitrary: nd)
  case Nil
  then show ?case by simp
next
  case (Cons i p)
  let ?cs = "successors nd"
  show ?case
  proof (cases "i < length ?cs")
    case False
    then have "?cs[i := node_update (?cs ! i) p f] = ?cs" by (simp add: list_update_beyond)
    with Cons.prems(1) show ?thesis by (simp add: node_sorted_iff [of d nd])
  next
    case True
    let ?c = "node_update (?cs ! i) p f"
    have ci: "node_sorted d (?cs ! i)"
      using Cons.prems(1) True by (simp add: node_sorted_iff [of d nd] list_all_length)
    have c: "node_sorted d ?c"
    proof (rule Cons.IH [OF ci])
      assume "valid_path (?cs ! i) p"
      with True have "valid_path nd (i # p)" by simp
      then have "node_sorted d (f (node_at nd (i # p)))" by (rule Cons.prems(2))
      then show "node_sorted d (f (node_at (?cs ! i) p))" by simp
    qed
    have "wordkey d ?c = wordkey d (?cs ! i)"
      using assms(1) by (simp add: wordkey_def word_node_update)
    then have keys: "map (wordkey d) (?cs[i := ?c]) = map (wordkey d) ?cs"
      using True by (simp add: map_update list_update_same_conv)
    have "list_all (node_sorted d) (?cs[i := ?c])"
      using Cons.prems(1) c True
      by (auto simp: node_sorted_iff [of d nd] list_all_length nth_list_update)
    with keys Cons.prems(1) show ?thesis
      by (simp add: node_sorted_iff [of d nd])
  qed
qed

lemma garray_append_insert: "garray_append xs e = garray_insert xs (length xs) e"
  by (simp add: garray_append_def garray_insert_def)

lemma list_all_garray_insert:
  "list_all P xs \<Longrightarrow> P e \<Longrightarrow> list_all P (garray_insert xs r e)"
  by (auto simp: garray_insert_def list_all_iff dest: in_set_takeD in_set_dropD)

lemma list_all_garray_delete:
  "list_all P xs \<Longrightarrow> list_all P (garray_delete xs s e)"
  by (auto simp: garray_delete_def list_all_iff dest: in_set_takeD in_set_dropD)

lemma node_sorted_add:
  assumes "node_sorted d nd" and "d = t_dict t"
    and "ng = set_word ngram_trie_node_alloc w"
    and "pos = garray_bisect_right (ngram_trie_nodeptr_cmp t) (successors nd) ng"
  shows "node_sorted d (set_successors nd
           (if pos = length (successors nd) then garray_append (successors nd) ng
            else garray_insert (successors nd) pos ng))"
proof -
  let ?cs = "successors nd"
  have s: "sorted (map (wordkey d) ?cs)" and a: "list_all (node_sorted d) ?cs"
    using assms(1) by (simp_all add: node_sorted_iff [of d nd])
  have b: "pos \<le> length ?cs \<and>
         (\<forall>i<pos. wordkey d (?cs ! i) \<le> wordkey d ng) \<and>
         (\<forall>i. pos \<le> i \<and> i < length ?cs \<longrightarrow> wordkey d ng < wordkey d (?cs ! i))"
    unfolding assms(4) garray_bisect_right_def
    by (rule bisect_right_loop_bounds) (auto simp: cmp_less assms(2) s [unfolded assms(2)])
  have ng: "node_sorted d ng"
    by (simp add: assms(3) set_word_def ngram_trie_node_alloc_def)
  have "sorted (map (wordkey d) (garray_insert ?cs pos ng))"
    using s b by (intro sorted_garray_insert) simp_all
  moreover have "list_all (node_sorted d) (garray_insert ?cs pos ng)"
    using a ng by (rule list_all_garray_insert)
  ultimately show ?thesis
    by (cases "pos = length ?cs") (simp_all add: set_successors_def garray_append_insert)
qed

lemma node_sorted_delete:
  assumes "node_sorted d nd"
  shows "node_sorted d (set_successors nd (garray_delete (successors nd) pos (pos + 1)))"
  using assms
  by (simp add: node_sorted_iff [of d nd] set_successors_def sorted_garray_delete
      list_all_garray_delete)

lemma apply_op_dict: "t_dict (apply_op t x) = t_dict t"
  by (cases x)
    (simp_all add: ngram_trie_add_successor_def ngram_trie_delete_successor_def Let_def)

lemma apply_op_sorted:
  assumes "node_sorted (t_dict t) (t_root t)"
  shows "node_sorted (t_dict t) (t_root (apply_op t x))"
proof (cases x)
  case (Add_successor h w)
  have "node_sorted (t_dict t) (node_update (t_root t) h
          (\<lambda>nd. set_successors nd
             (if garray_bisect_right (ngram_trie_nodeptr_cmp t) (successors (deref t h))
                   (set_word ngram_trie_node_alloc w) = length (successors nd)
              then garray_append (successors nd) (set_word ngram_trie_node_alloc w)
              else garray_insert (successors nd)
                     (garray_bisect_right (ngram_trie_nodeptr_cmp t) (successors (deref t h))
                        (set_word ngram_trie_node_alloc w))
                     (set_word ngram_trie_node_alloc w))))"
  proof (rule node_sorted_node_update [OF _ assms])
    show "\<forall>x. word (set_successors x
             (if garray_bisect_right (ngram_trie_nodeptr_cmp t) (successors (deref t h))
                   (set_word ngram_trie_node_alloc w) = length (successors x)
              then garray_append (successors x) (set_word ngram_trie_node_alloc w)
              else garray_insert (successors x)
                     (garray_bisect_right (ngram_trie_nodeptr_cmp t) (successors (deref t h))
                        (set_word ngram_trie_node_alloc w))
                     (set_word ngram_trie_node_alloc w))) = word x"
      by (simp add: set_successors_def)
  next
    assume "valid_path (t_root t) h"
    with assms have "node_sorted (t_dict t) (node_at (t_root t) h)"
      by (rule node_sorted_node_at)
    then show "node_sorted (t_dict t) (set_successors (node_at (t_root t) h)
             (if garray_bisect_right (ngram_trie_nodeptr_cmp t) (successors (deref t h))
                   (set_word ngram_trie_node_alloc w) = length (successors (node_at (t_root t) h))
              then garray_append (successors (node_at (t_root t) h)) (set_word ngram_trie_node_alloc w)
              else garray_insert (successors (node_at (t_root t) h))
                     (garray_bisect_right (ngram_trie_nodeptr_cmp t) (successors (deref t h))
                        (set_word ngram_trie_node_alloc w))
                     (set_word ngram_trie_node_alloc w)))"
      by (intro node_sorted_add) (simp_all add: deref_def)
  qed
  with Add_successor show ?thesis
    by (simp add: ngram_trie_add_successor_def Let_def)
next
  case (Delete_successor h w)
  have "node_sorted (t_dict t) (node_update (t_root t) h
          (\<lambda>nd. set_successors nd (garray_delete (successors nd)
             (ngram_trie_successor_pos t h w) (ngram_trie_successor_pos t h w + 1))))"
  proof (rule node_sorted_node_update [OF _ assms])
    show "\<forall>x. word (set_successors x (garray_delete (successors x)
             (ngram_trie_successor_pos t h w) (ngram_trie_successor_pos t h w + 1))) = word x"
      by (simp add: set_successors_def)
  next
    assume "valid_path (t_root t) h"
    with assms have "node_sorted (t_dict t) (node_at (t_root t) h)"
      by (rule node_sorted_node_at)
    then show "node_sorted (t_dict t) (set_successors (node_at (t_root t) h)
             (garray_delete (successors (node_at (t_root t) h))
                (ngram_trie_successor_pos t h w) (ngram_trie_successor_pos t h w + 1)))"
      by (rule node_sorted_delete)
  qed
  with Delete_successor assms show ?thesis
    by (simp add: ngram_trie_delete_successor_def Let_def)
qed

lemma apply_ops_sorted:
  "node_sorted (t_dict t) (t_root t) \<Longrightarrow>
   t_dict (apply_ops t ops) = t_dict t \<and> node_sorted (t_dict t) (t_root (apply_ops t ops))"
  unfolding apply_ops_def
proof (induction ops arbitrary: t)
  case Nil
  then show ?case by simp
next
  case (Cons x ops)
  have "node_sorted (t_dict (apply_op t x)) (t_root (apply_op t x))"
    using Cons.prems by (simp add: apply_op_dict apply_op_sorted)
  from Cons.IH [OF this] show ?case by (simp add: apply_op_dict)
qed

text \<open>
  In a trie whose successor arrays are in non-decreasing order of the surface forms,
  they are so after any sequence of calls of the two mutators.
\<close>

lemma successors_sorted:
  assumes "node_sorted (t_dict t) (t_root t)"
    and "valid_path (t_root (apply_ops t ops)) h"
  shows "sorted (successor_strs (apply_ops t ops) h)"
proof -
  from apply_ops_sorted [OF assms(1), of ops]
  have d: "t_dict (apply_ops t ops) = t_dict t"
    and s: "node_sorted (t_dict t) (t_root (apply_ops t ops))" by simp_all
  from s assms(2) have "node_sorted (t_dict t) (node_at (t_root (apply_ops t ops)) h)"
    by (rule node_sorted_node_at)
  then show ?thesis
    by (simp add: successor_strs_def d deref_def node_sorted_iff [of _ "node_at _ _"])
qed

text \<open>
  The order of a node's array stays strict when \<^verbatim>\<open>ngram_trie_add_successor\<close> adds a
  word whose surface form is not in the array yet, and whenever
  \<^verbatim>\<open>ngram_trie_delete_successor\<close> is called.
\<close>

lemma node_at_node_update:
  "valid_path nd p \<Longrightarrow> node_at (node_update nd p f) p = f (node_at nd p)"
  by (induction p arbitrary: nd) simp_all

lemma strict_garray_insert:
  fixes k :: "'a \<Rightarrow> 'b::linorder"
  assumes "sorted_wrt (<) (map k xs)" and "r \<le> length xs"
    and "\<forall>i<r. k (xs ! i) \<le> k e"
    and "\<forall>i. r \<le> i \<and> i < length xs \<longrightarrow> k e < k (xs ! i)"
    and "k e \<notin> set (map k xs)"
  shows "sorted_wrt (<) (map k (garray_insert xs r e))"
proof -
  from assms(1) have s: "sorted (map k xs)" and d: "distinct (map k xs)"
    by (simp_all add: strict_sorted_iff)
  have "sorted (map k (garray_insert xs r e))"
    using s assms(2-4) by (rule sorted_garray_insert)
  moreover have "distinct (map k (take r xs) @ map k (drop r xs))"
    using d by (simp add: map_append [symmetric] del: map_append)
  then have "distinct (map k (garray_insert xs r e))"
    using assms(5) set_take_subset [of r xs] set_drop_subset [of r xs]
    by (auto simp: garray_insert_def)
  ultimately show ?thesis by (simp add: strict_sorted_iff)
qed

lemma strict_garray_delete:
  fixes k :: "'a \<Rightarrow> 'b::linorder"
  assumes "sorted_wrt (<) (map k xs)" and "s \<le> e"
  shows "sorted_wrt (<) (map k (garray_delete xs s e))"
proof -
  from assms(1) have so: "sorted (map k xs)" and d: "distinct (map k xs)"
    by (simp_all add: strict_sorted_iff)
  have "sorted (map k (garray_delete xs s e))"
    using so assms(2) by (rule sorted_garray_delete)
  moreover have "distinct (take s (map k xs) @ drop e (map k xs))"
  proof -
    have "distinct (take s (map k xs) @ drop s (map k xs))" using d by simp
    moreover have "set (drop e (map k xs)) \<subseteq> set (drop s (map k xs))"
      using assms(2) by (rule set_drop_subset_set_drop)
    ultimately show ?thesis
      using d by (auto simp: distinct_drop simp del: append_take_drop_id)
  qed
  then have "distinct (map k (garray_delete xs s e))"
    by (simp add: garray_delete_def take_map drop_map)
  ultimately show ?thesis by (simp add: strict_sorted_iff)
qed

lemma add_successor_strict:
  assumes v: "valid_path (t_root t) h"
    and s: "sorted_wrt (<) (successor_strs t h)"
    and n: "dict_wordstr (t_dict t) w \<notin> set (successor_strs t h)"
  shows "sorted_wrt (<) (successor_strs (fst (ngram_trie_add_successor t h w)) h)"
proof -
  let ?d = "t_dict t"
  let ?cs = "successors (deref t h)"
  let ?ng = "set_word ngram_trie_node_alloc w"
  let ?pos = "garray_bisect_right (ngram_trie_nodeptr_cmp t) ?cs ?ng"
  have key: "wordkey ?d ?ng = dict_wordstr ?d w"
    by (simp add: wordkey_def set_word_def)
  from s have so: "sorted (map (wordkey ?d) ?cs)"
    by (simp add: successor_strs_def strict_sorted_iff)
  have b: "?pos \<le> length ?cs \<and>
         (\<forall>i<?pos. wordkey ?d (?cs ! i) \<le> wordkey ?d ?ng) \<and>
         (\<forall>i. ?pos \<le> i \<and> i < length ?cs \<longrightarrow> wordkey ?d ?ng < wordkey ?d (?cs ! i))"
    unfolding garray_bisect_right_def
    by (rule bisect_right_loop_bounds) (auto simp: cmp_less so)
  have "sorted_wrt (<) (map (wordkey ?d) (garray_insert ?cs ?pos ?ng))"
    using s n b by (intro strict_garray_insert) (simp_all add: successor_strs_def key)
  moreover have "successors (deref (fst (ngram_trie_add_successor t h w)) h) =
      garray_insert ?cs ?pos ?ng"
    using v
    by (cases "?pos = length ?cs")
      (simp_all add: ngram_trie_add_successor_def Let_def deref_def node_at_node_update
        set_successors_def garray_append_insert)
  moreover have "t_dict (fst (ngram_trie_add_successor t h w)) = ?d"
    by (simp add: ngram_trie_add_successor_def Let_def)
  ultimately show ?thesis by (simp add: successor_strs_def)
qed

lemma delete_successor_strict:
  assumes v: "valid_path (t_root t) h"
    and s: "sorted_wrt (<) (successor_strs t h)"
  shows "sorted_wrt (<) (successor_strs (snd (ngram_trie_delete_successor t h w)) h)"
proof (cases "ngram_trie_successor_pos t h w \<ge> length (successors (deref t h))")
  case True
  with s show ?thesis by (simp add: ngram_trie_delete_successor_def Let_def)
next
  case False
  let ?pos = "ngram_trie_successor_pos t h w"
  have "sorted_wrt (<) (map (wordkey (t_dict t))
          (garray_delete (successors (deref t h)) ?pos (?pos + 1)))"
    using s by (intro strict_garray_delete) (simp_all add: successor_strs_def)
  moreover have "successors (deref (snd (ngram_trie_delete_successor t h w)) h) =
      garray_delete (successors (deref t h)) ?pos (?pos + 1)"
    using v False
    by (simp add: ngram_trie_delete_successor_def Let_def deref_def node_at_node_update
        set_successors_def)
  moreover have "t_dict (snd (ngram_trie_delete_successor t h w)) = t_dict t"
    by (simp add: ngram_trie_delete_successor_def Let_def)
  ultimately show ?thesis by (simp add: successor_strs_def)
qed

lemma trie_empty_two_adds:
  "successor_strs (apply_ops trie_empty [Add_successor [] 0, Add_successor [] 0]) [] =
     [''a'', ''a'']"
  by (simp add: successor_strs_def apply_ops_def ngram_trie_add_successor_def
      garray_bisect_right_def garray_append_def garray_insert_def set_successors_def
      set_word_def ngram_trie_node_alloc_def ngram_trie_nodeptr_cmp_def dict_wordstr_def
      wordkey_def strcmp_simps trie_empty_def example_trie_def deref_def Let_def)

text \<open>
  C9. \<^verbatim>\<open>ngram_trie_add_successor\<close> called twice with the word "a" under the root of
  an empty trie: the second call adds a second node for "a", the successor array reads
  "a", "a" and is not in strictly increasing order. The assertion of
  \<^verbatim>\<open>ngram_trie_next_node\<close>, that the search finds the node itself in its parent's
  array, fails for the second node; it holds for both nodes when the second word is
  "b".
\<close>

theorem ngram_trie_add_successor_duplicate:
  "successor_strs (apply_ops trie_empty [Add_successor [] 0, Add_successor [] 0]) [] =
     [''a'', ''a''] \<and>
   ngram_trie_next_node (apply_ops trie_empty [Add_successor [] 0, Add_successor [] 0]) [1] =
     Inl Assertion_failed \<and>
   ngram_trie_next_node (apply_ops trie_empty [Add_successor [] 0, Add_successor [] 1]) [0] =
     Inr (Some [1]) \<and>
   ngram_trie_next_node (apply_ops trie_empty [Add_successor [] 0, Add_successor [] 1]) [1] =
     Inr None"
  by code_simp

section \<open>The backoff-weight lookup\<close>

text \<open>
  C7 (as amended). With the history array holding \<open>n_hist\<close> words, newest first,
  \<^verbatim>\<open>ngram_trie_bowt_v\<close> looks up the word with its whole history and, when there is no
  such node and the history is not empty, goes on with the newest history word as the
  word and the older words as its history: the word asked for is dropped, the oldest word
  stays. The first node found gives its weight; when the words are exhausted the weight
  is 0.
\<close>

theorem ngram_trie_bowt_v_chain:
  "n_hist = int (length hist) \<Longrightarrow>
   ngram_trie_bowt_v t w hist n_hist = bowt_chain t (w # hist)"
proof (induction hist arbitrary: w n_hist)
  case Nil
  then show ?case
    by (subst ngram_trie_bowt_v.simps) (simp split: option.splits)
next
  case (Cons h hist)
  have "ngram_trie_bowt_v t h hist (int (length hist)) = bowt_chain t (h # hist)"
    by (rule Cons.IH) simp
  with Cons.prems show ?case
    by (subst ngram_trie_bowt_v.simps) (simp split: option.splits)
qed

lemma trie_abc_bowt_2: "ngram_trie_bowt_v trie_abc 2 [0, 1] 2 = Some 7"
  by code_simp

lemma trie_abc_bowt_1: "ngram_trie_bowt_v trie_abc 2 [0, 1] 1 = Some 5"
  by code_simp

lemma trie_abc_absent: "ngram_trie_ngram_v trie_abc 2 [0, 1] 2 = Some None"
  by code_simp

theorem ngram_trie_bowt_v_chain_witness:
  "(2::int) = int (length [0, 1 :: int]) \<and>
   ngram_trie_bowt_v trie_abc 2 [0, 1] 2 = bowt_chain trie_abc [2, 0, 1] \<and>
   bowt_chain trie_abc [2, 0, 1] = Some 7"
proof -
  have 1: "(2::int) = int (length [0, 1 :: int])" by simp
  have c: "ngram_trie_bowt_v trie_abc 2 [0, 1] 2 = bowt_chain trie_abc [2, 0, 1]"
    using 1 by (rule ngram_trie_bowt_v_chain)
  have "bowt_chain trie_abc [2, 0, 1] = Some 7"
    using c [symmetric] trie_abc_bowt_2 by (rule trans)
  with 1 c show ?thesis by (intro conjI)
qed

text \<open>
  In \<open>trie_abc\<close> the entry of "c" with the history "a" (newest), "b" (oldest) is
  absent. The weight returned is 7, the weight of the unigram of the oldest history word
  "b"; with the oldest word dropped from the history the weight is 5.
\<close>

theorem ngram_trie_bowt_v_counterexample:
  "ngram_trie_ngram_v trie_abc 2 [0, 1] 2 = Some None \<and>
   ngram_trie_bowt_v trie_abc 2 [0, 1] 2 = Some 7 \<and>
   ngram_trie_bowt_v trie_abc 2 [0, 1] 1 = Some 5 \<and>
   ngram_trie_bowt_v trie_abc 2 [0, 1] 2 \<noteq> ngram_trie_bowt_v trie_abc 2 [0, 1] 1"
  by (simp only: trie_abc_absent trie_abc_bowt_2 trie_abc_bowt_1) simp

section \<open>The count of words used\<close>

text \<open>
  C8 (as amended). A probability query made with an \<^verbatim>\<open>n_used\<close> cell and
  \<open>n_hist \<ge> 0\<close> history words reports a count \<open>k\<close> that is at least 0 and at most
  \<open>n_hist + 1\<close>, one more than the length of the history supplied. The count starts at
  \<open>n_hist + 1\<close> and is lowered by one for each lookup that returns no node, that is with
  each backoff step taken and once more when the lookup with the empty history fails too:
  every lookup called with a history length \<open>j\<close> from \<open>k\<close> to \<open>n_hist\<close> returned no
  node, and when \<open>k\<close> is positive the lookup called with the history length \<open>k - 1\<close>
  returned a node.
\<close>

theorem ngram_trie_prob_v_n_used:
  assumes "0 \<le> n_hist"
  shows "\<exists>p k. ngram_trie_prob_v t (Some v) w hist n_hist = Some (p, Some k) \<and>
           0 \<le> k \<and> k \<le> n_hist + 1 \<and>
           (\<forall>j. k \<le> j \<and> j \<le> n_hist \<longrightarrow> ngram_trie_ngram_v t w hist j = Some None) \<and>
           (0 < k \<longrightarrow> (\<exists>ng. ngram_trie_ngram_v t w hist (k - 1) = Some (Some ng)))"
  using assms
proof (induction "nat n_hist" arbitrary: n_hist v)
  case 0
  then have n: "n_hist = 0" by simp
  obtain r where r: "ngram_trie_ngram_v t w hist 0 = Some r"
    using ngram_trie_ngram_v_returns by blast
  show ?case
  proof (cases r)
    case None
    with r n have "ngram_trie_prob_v t (Some v) w hist n_hist = Some (push_bit (t_shift t) (t_zero t), Some 0)"
      by (subst ngram_trie_prob_v.simps) simp
    moreover have "\<forall>j. 0 \<le> j \<and> j \<le> n_hist \<longrightarrow> ngram_trie_ngram_v t w hist j = Some None"
      using r None n by auto
    ultimately show ?thesis using n by simp
  next
    case (Some ng)
    with r n have "ngram_trie_prob_v t (Some v) w hist n_hist =
        Some (push_bit (t_shift t) (sint (log_prob (deref t ng))), Some 1)"
      by (subst ngram_trie_prob_v.simps) simp
    with r Some n show ?thesis by auto
  qed
next
  case (Suc m)
  then have pos: "0 < n_hist" and m: "m = nat (n_hist - 1)" and ge: "0 \<le> n_hist - 1" by simp_all
  obtain r where r: "ngram_trie_ngram_v t w hist n_hist = Some r"
    using ngram_trie_ngram_v_returns by blast
  show ?case
  proof (cases r)
    case (Some ng)
    with r have "ngram_trie_prob_v t (Some v) w hist n_hist =
        Some (push_bit (t_shift t) (sint (log_prob (deref t ng))), Some (n_hist + 1))"
      by (subst ngram_trie_prob_v.simps) simp
    with r Some pos show ?thesis by auto
  next
    case None
    from Suc.hyps(1) [OF m ge, of n_hist]
    obtain p k where
      rec: "ngram_trie_prob_v t (Some n_hist) w hist (n_hist - 1) = Some (p, Some k)"
      and k: "0 \<le> k" "k \<le> n_hist"
      and absent: "\<forall>j. k \<le> j \<and> j \<le> n_hist - 1 \<longrightarrow> ngram_trie_ngram_v t w hist j = Some None"
      and found: "0 < k \<longrightarrow> (\<exists>ng. ngram_trie_ngram_v t w hist (k - 1) = Some (Some ng))"
      by auto
    obtain pong where pong: "ngram_trie_bowt_v t (hist ! 0) (drop 1 hist) (n_hist - 1) = Some pong"
      using ngram_trie_bowt_v_returns by blast
    have "ngram_trie_prob_v t (Some v) w hist n_hist = Some (p + pong, Some k)"
      using r None pos rec pong by (subst ngram_trie_prob_v.simps) simp
    moreover have "\<forall>j. k \<le> j \<and> j \<le> n_hist \<longrightarrow> ngram_trie_ngram_v t w hist j = Some None"
    proof (intro allI impI)
      fix j assume j: "k \<le> j \<and> j \<le> n_hist"
      show "ngram_trie_ngram_v t w hist j = Some None"
      proof (cases "j = n_hist")
        case True
        with r None show ?thesis by simp
      next
        case False
        with j have "k \<le> j \<and> j \<le> n_hist - 1" by simp
        with absent show ?thesis by blast
      qed
    qed
    ultimately show ?thesis using k found by simp
  qed
qed

lemma trie_abc_prob: "ngram_trie_prob_v trie_abc (Some 0) 2 [0, 1] 2 = Some (- 18, Some 1)"
  by code_simp

theorem ngram_trie_prob_v_n_used_witness:
  "(0::int) \<le> 2 \<and>
   (\<exists>p k. ngram_trie_prob_v trie_abc (Some 0) 2 [0, 1] 2 = Some (p, Some k) \<and> k = 1 \<and>
      ngram_trie_ngram_v trie_abc 2 [0, 1] 1 = Some None \<and>
      ngram_trie_ngram_v trie_abc 2 [0, 1] 2 = Some None \<and>
      (\<exists>ng. ngram_trie_ngram_v trie_abc 2 [0, 1] 0 = Some (Some ng)))"
proof -
  have 1: "(0::int) \<le> 2" by simp
  from ngram_trie_prob_v_n_used [OF 1, of trie_abc 0 2 "[0, 1]"]
  obtain p k where
    pk: "ngram_trie_prob_v trie_abc (Some 0) 2 [0, 1] 2 = Some (p, Some k)"
    and absent: "\<forall>j. k \<le> j \<and> j \<le> 2 \<longrightarrow> ngram_trie_ngram_v trie_abc 2 [0, 1] j = Some None"
    and found: "0 < k \<longrightarrow> (\<exists>ng. ngram_trie_ngram_v trie_abc 2 [0, 1] (k - 1) = Some (Some ng))"
    by blast
  from pk have k: "k = 1" by (simp add: trie_abc_prob)
  from absent k have "ngram_trie_ngram_v trie_abc 2 [0, 1] 1 = Some None"
    and "ngram_trie_ngram_v trie_abc 2 [0, 1] 2 = Some None" by simp_all
  moreover from found k have "\<exists>ng. ngram_trie_ngram_v trie_abc 2 [0, 1] 0 = Some (Some ng)"
    by simp
  ultimately show ?thesis using pk k by simp
qed

text \<open>
  The unigram "a" of \<open>trie_abc\<close> asked for with an empty history: the node is found
  at once and the count reported is 1, above the length 0 of the history supplied.
\<close>

theorem ngram_trie_prob_v_n_used_counterexample:
  "ngram_trie_prob_v trie_abc (Some 0) 0 [] 0 = Some (- 10, Some 1) \<and>
   \<not> (1::int) \<le> int (length ([] :: int list))"
proof -
  have "ngram_trie_prob_v trie_abc (Some 0) 0 [] 0 = Some (- 10, Some 1)"
    by code_simp
  then show ?thesis by simp
qed

section \<open>Iterating over the N-grams of an order\<close>

text \<open>
  C5. In \<open>trie_c\<close>, which has three bigrams under two histories, the iterator that
  \<^verbatim>\<open>ngram_trie_ngrams\<close> creates for order 2 has \<^verbatim>\<open>nostop\<close> unset, and advancing it
  until exhaustion visits the two bigrams under "a" only. With the flag set, as the
  comment in the source has it, the same traversal visits all three.
\<close>

theorem ngram_trie_ngrams_first_history_only:
  "ngram_trie_ngrams trie_c 2 = Some \<lparr>it_cur = [0], it_pos = 0, it_nostop = False\<rparr> \<and>
   iter_visit 5 trie_c (ngram_trie_ngrams trie_c 2) = Some (Inr [Some [0, 0], Some [0, 1]]) \<and>
   iter_visit 5 trie_c (Some \<lparr>it_cur = [0], it_pos = 0, it_nostop = True\<rparr>) =
     Some (Inr [Some [0, 0], Some [0, 1], Some [1, 0]])"
  by code_simp

section \<open>Loading an ARPA model\<close>

lemma atof_values:
  "atof_c ''-1.0'' = - 1" "atof_c ''-2.0'' = - 2" "atof_c ''-3.0'' = - 3"
  "atof_c ''-0.5'' = - 1 / 2"
  by (simp_all add: atof_c_def atof_unsigned_def isspace_def isdigit_def digit_val_def)

lemmas loader_defs =
  ngram_trie_read_arpa_def string_trim_def isspace_def isdigit_def digit_val_def strcmp_def
  data_marker_def end_marker_def backslash_def read_ngram_counts_def atoi_def
  garray_append_def garray_insert_def garray_expand_to_def garray_put_def
  read_arpa_loop.simps read_ngrams_def add_ngram_line_def str2words_def
  dict_wordid_def BAD_S3WID_def dict_add_word_def dict_wordstr_def
  ngram_trie_ngram_v_def ngram_v_loop.simps ngram_trie_root_def
  ngram_trie_successor_def ngram_trie_successor_pos_def garray_bisect_left_def
  garray_bisect_right_def ngram_trie_nodeptr_cmp_def deref_def
  add_ngram_node_def ngram_trie_add_successor_def set_word_def set_successors_def
  set_log_values_def ngram_trie_node_alloc_def history_def Let_def atof_values

lemma load_scenario_a:
  assumes "t_dict t0 = []" and "t_gendict t0" and "t_root t0 = ngram_trie_node_alloc"
  shows "\<exists>t. ngram_trie_read_arpa t0 scenario_a = Some (Inr (0, t)) \<and>
     t_dict t = [''a'', ''b'', ''<unk>''] \<and> t_n t = 2 \<and> t_counts t = [1, 3, 1] \<and>
     t_shift t = t_shift t0 \<and> t_lmath t = t_lmath t0 \<and> t_zero t = t_zero t0 \<and>
     t_root t = Node (- 1) 0 0
       [Node 2 (store16 t0 (- 3)) (store16 t0 0) [],
        Node 0 (store16 t0 (- 1)) (store16 t0 0)
          [Node 1 (store16 t0 (- 1 / 2)) (store16 t0 0) []],
        Node 1 (store16 t0 (- 2)) (store16 t0 0) []]"
  using assms
  by (simp add: scenario_a_def loader_defs store16_def)

lemma scenario_a_queries:
  assumes "t_dict t = [''a'', ''b'', ''<unk>'']" and "t_n t = 2"
    and "t_root t = Node (- 1) 0 0
       [Node 2 u_prob u_bowt [],
        Node 0 a_prob a_bowt [Node 1 ab_prob ab_bowt []],
        Node 1 b_prob b_bowt []]"
  shows "ngram_trie_prob t None ''b'' [''a''] =
           Some (push_bit (t_shift t) (sint b_prob) + push_bit (t_shift t) (sint a_bowt), None)"
    and "ngram_trie_prob t None ''b'' [''<unk>''] =
           Some (push_bit (t_shift t) (sint b_prob) + push_bit (t_shift t) (sint u_bowt), None)"
    and "log_prob (deref t [1, 0]) = ab_prob"
  using assms
  by (simp_all add: ngram_trie_prob_def ngram_trie_prob_v.simps ngram_trie_bowt_v.simps
      loader_defs)

lemma scenario_a_any_lmath:
  "\<exists>t. ngram_trie_read_arpa (ngram_trie_init None lm) scenario_a = Some (Inr (0, t)) \<and>
     ngram_trie_prob t None ''b'' [''a''] = Some (quantized t (- 2) + quantized t 0, None) \<and>
     ngram_trie_prob t None ''b'' [''<unk>''] = Some (quantized t (- 2) + quantized t 0, None) \<and>
     push_bit (t_shift t) (sint (log_prob (deref t [1, 0]))) = quantized t (- 1 / 2)"
proof -
  let ?t0 = "ngram_trie_init None lm"
  have 0: "t_dict ?t0 = []" "t_gendict ?t0" "t_root ?t0 = ngram_trie_node_alloc"
    by (simp_all add: ngram_trie_init_def Let_def split_beta)
  from load_scenario_a [OF 0] obtain t where
    load: "ngram_trie_read_arpa ?t0 scenario_a = Some (Inr (0, t))"
    and d: "t_dict t = [''a'', ''b'', ''<unk>'']" and n: "t_n t = 2"
    and s: "t_shift t = t_shift ?t0" and l: "t_lmath t = t_lmath ?t0"
    and r: "t_root t = Node (- 1) 0 0
       [Node 2 (store16 ?t0 (- 3)) (store16 ?t0 0) [],
        Node 0 (store16 ?t0 (- 1)) (store16 ?t0 0)
          [Node 1 (store16 ?t0 (- 1 / 2)) (store16 ?t0 0) []],
        Node 1 (store16 ?t0 (- 2)) (store16 ?t0 0) []]"
    by blast
  have st: "store16 t = store16 ?t0"
    by (rule ext) (simp add: store16_def s l)
  from scenario_a_queries [OF d n r] load show ?thesis
    by (intro exI [of _ t]) (simp add: quantized_def st)
qed

lemma example_lmath_floor: "example_lmath MIN_LOGPROB = 0"
proof -
  have "(0::real) \<le> 1 / 10 ^ 20 * 1000" by simp
  moreover have "(1::real) / 10 ^ 20 * 1000 < 1" by simp
  ultimately have "\<lfloor>(1::real) / 10 ^ 20 * 1000\<rfloor> = 0"
    by (simp only: floor_eq_iff) simp
  then show ?thesis by (simp only: example_lmath_def MIN_LOGPROB_def)
qed

lemma example_lmath_init:
  "t_shift (ngram_trie_init d example_lmath) = 0"
  "t_lmath (ngram_trie_init d example_lmath) = example_lmath"
proof -
  have "init_shift_loop (example_lmath MIN_LOGPROB) 0 = (0, 0)"
    by (subst init_shift_loop.simps) (simp add: example_lmath_floor)
  then show "t_shift (ngram_trie_init d example_lmath) = 0"
    and "t_lmath (ngram_trie_init d example_lmath) = example_lmath"
    by (simp_all add: ngram_trie_init_def)
qed

text \<open>
  C6. Scenario A loaded into a fresh trie with its own dictionary: the load succeeds and
  the bigram "a b" is stored with the quantized form -500 of -0.5, but the probability
  of "b" after "a" is -2000, the quantized form of -2.0 plus that of 0.0: the
  unigram of "b" backed off with the weight of "a", the same value as for "b"
  after "<unk>".
\<close>

theorem scenario_a_bigram_not_used:
  "\<exists>t. ngram_trie_read_arpa (ngram_trie_init None example_lmath) scenario_a =
          Some (Inr (0, t)) \<and>
     ngram_trie_prob t None ''b'' [''a''] = Some (- 2000, None) \<and>
     ngram_trie_prob t None ''b'' [''<unk>''] = Some (- 2000, None) \<and>
     quantized t (- 1 / 2) = - 500 \<and> quantized t (- 2) = - 2000 \<and> quantized t 0 = 0 \<and>
     push_bit (t_shift t) (sint (log_prob (deref t [1, 0]))) = - 500"
proof -
  let ?t0 = "ngram_trie_init None example_lmath"
  have 0: "t_dict ?t0 = []" "t_gendict ?t0" "t_root ?t0 = ngram_trie_node_alloc"
    by (simp_all add: ngram_trie_init_def Let_def split_beta)
  from load_scenario_a [OF 0] obtain t where
    load: "ngram_trie_read_arpa ?t0 scenario_a = Some (Inr (0, t))"
    and d: "t_dict t = [''a'', ''b'', ''<unk>'']" and n: "t_n t = 2"
    and s: "t_shift t = t_shift ?t0" and l: "t_lmath t = t_lmath ?t0"
    and r: "t_root t = Node (- 1) 0 0
       [Node 2 (store16 ?t0 (- 3)) (store16 ?t0 0) [],
        Node 0 (store16 ?t0 (- 1)) (store16 ?t0 0)
          [Node 1 (store16 ?t0 (- 1 / 2)) (store16 ?t0 0) []],
        Node 1 (store16 ?t0 (- 2)) (store16 ?t0 0) []]"
    by blast
  have q: "store16 ?t0 (- 2) = word_of_int (- 2000)" "store16 ?t0 0 = 0"
    "store16 ?t0 (- 1 / 2) = word_of_int (- 500)"
    by (simp_all add: store16_def example_lmath_init example_lmath_def)
  have qt: "quantized t (- 1 / 2) = - 500" "quantized t (- 2) = - 2000" "quantized t 0 = 0"
    by (simp_all add: quantized_def store16_def s l example_lmath_init example_lmath_def)
  have sh: "t_shift t = 0" by (simp add: s example_lmath_init)
  from scenario_a_queries [OF d n r] load qt show ?thesis
    by (intro exI [of _ t]) (simp add: q sh store16_def example_lmath_init example_lmath_def)
qed

lemma ngram_trie_init_fields:
  "t_dict (ngram_trie_init d lm) = (case d of Some d' \<Rightarrow> d' | None \<Rightarrow> [])"
  "t_gendict (ngram_trie_init d lm) = (case d of Some d' \<Rightarrow> False | None \<Rightarrow> True)"
  "t_root (ngram_trie_init d lm) = ngram_trie_node_alloc"
  by (simp_all add: ngram_trie_init_def Let_def split_beta)

lemma load_unknown_unigram:
  "\<exists>t. ngram_trie_read_arpa (ngram_trie_init (Some [''a'']) lm) arpa_unknown_unigram =
          Some (Inr (- 1, t)) \<and> successors (t_root t) = []"
  by (simp add: arpa_unknown_unigram_def loader_defs ngram_trie_init_fields)

lemma load_unknown_history_word:
  "\<exists>t. ngram_trie_read_arpa (ngram_trie_init None lm) arpa_unknown_history_word =
          Some (Inr (- 1, t)) \<and> map successors (successors (t_root t)) = [[]]"
  by (simp add: arpa_unknown_history_word_def loader_defs ngram_trie_init_fields)

lemma load_unknown_history_path:
  "\<exists>t. ngram_trie_read_arpa (ngram_trie_init (Some [''a'', ''b'']) lm)
            arpa_unknown_history_path =
          Some (Inr (- 1, t)) \<and> map successors (successors (t_root t)) = [[]]"
  by (simp add: arpa_unknown_history_path_def loader_defs ngram_trie_init_fields)

text \<open>
  C3. Loading each of the three models returns -1. In the first the line after the
  unknown unigram is never added; in the other two the unigram is the only node in the
  trie, the bigram line after the skipped one never being added.
\<close>

theorem read_arpa_aborts_on_skipped_line:
  "(\<exists>t. ngram_trie_read_arpa (ngram_trie_init (Some [''a'']) lm) arpa_unknown_unigram =
          Some (Inr (- 1, t)) \<and> successors (t_root t) = []) \<and>
   (\<exists>t. ngram_trie_read_arpa (ngram_trie_init None lm) arpa_unknown_history_word =
          Some (Inr (- 1, t)) \<and> map successors (successors (t_root t)) = [[]]) \<and>
   (\<exists>t. ngram_trie_read_arpa (ngram_trie_init (Some [''a'', ''b'']) lm)
            arpa_unknown_history_path =
          Some (Inr (- 1, t)) \<and> map successors (successors (t_root t)) = [[]])"
  using load_unknown_unigram load_unknown_history_word load_unknown_history_path
  by (intro conjI)

end
